theory Spec2Isabelle
  imports Main "HOL-Library.AList"
begin

section \<open>The real-time hub of Nyx-Chat (server/src/socket/socketHandler.ts)\<close>

text \<open>
  The hub keeps two module-level JavaScript Maps, \<^verbatim>\<open>connectedUsers\<close> (socket id to
  \<^verbatim>\<open>SocketUser\<close>) and \<^verbatim>\<open>userSockets\<close> (user id to socket id), and routes events
  through Socket.IO rooms.  The embedding makes the shared state a record, every handler
  a function from the state to the new state and the list of events put on the wire,
  and every exception a branch.

  What is left out, none of it read by the routing: the \<^verbatim>\<open>Date\<close> values
  (\<^verbatim>\<open>lastSeen\<close>, \<^verbatim>\<open>timestamp\<close>, \<^verbatim>\<open>startTime\<close>, \<^verbatim>\<open>endTime\<close>), the ids drawn by
  \<^verbatim>\<open>generateMessageId\<close> and \<^verbatim>\<open>generateCallId\<close>, and the calls of \<^verbatim>\<open>logActivity\<close> and
  \<^verbatim>\<open>logger\<close> inside the event handlers, but for the template literals among their
  arguments that can throw (lines 132 and 324).  The account store
  (\<^verbatim>\<open>User.findByIdAndUpdate\<close>) is an external collaborator: whether its call succeeds
  is an input of the handler that awaits it.  A handler runs as one step; the
  interleaving of other handlers at an \<^verbatim>\<open>await\<close> is not modelled.
\<close>

subsection \<open>JavaScript values of event payloads\<close>

text \<open>
  Event payloads are typed \<^verbatim>\<open>any\<close> at run time: whatever JSON the client sent, or
  \<^verbatim>\<open>undefined\<close> when it sent no argument.  An object is the list of its own
  properties.  Numbers are not part of the model.
\<close>

datatype jsval =
    JUndefined
  | JNull
  | JBool bool
  | JStr string
  | JArr "jsval list"
  | JObj "(string \<times> jsval) list"

text \<open>
  Destructuring \<^verbatim>\<open>const { chatId } = data\<close> throws a TypeError when \<^verbatim>\<open>data\<close> is
  \<^verbatim>\<open>undefined\<close> or \<^verbatim>\<open>null\<close>; on any other value a property that is not there reads as
  \<^verbatim>\<open>undefined\<close>.
\<close>

definition nullish :: "jsval \<Rightarrow> bool" where
  "nullish v = (v = JUndefined \<or> v = JNull)"

fun get_prop :: "jsval \<Rightarrow> string \<Rightarrow> jsval" where
  "get_prop (JObj kvs) k = (case map_of kvs k of None \<Rightarrow> JUndefined | Some v \<Rightarrow> v)"
| "get_prop _ k = JUndefined"

fun join_comma :: "string list \<Rightarrow> string" where
  "join_comma [] = []"
| "join_comma [x] = x"
| "join_comma (x # y # ys) = x @ '','' @ join_comma (y # ys)"

text \<open>
  The string a template literal \<^verbatim>\<open>`${v}`\<close> gives to a value; \<open>None\<close> is the TypeError
  of an object that cannot be converted (a parsed JSON object whose own \<^verbatim>\<open>toString\<close>
  property hides \<^verbatim>\<open>Object.prototype.toString\<close>).  An array is joined with commas,
  \<^verbatim>\<open>undefined\<close> and \<^verbatim>\<open>null\<close> elements giving the empty string.
\<close>

fun to_string :: "jsval \<Rightarrow> string option" where
  "to_string JUndefined = Some ''undefined''"
| "to_string JNull = Some ''null''"
| "to_string (JBool b) = Some (if b then ''true'' else ''false'')"
| "to_string (JStr s) = Some s"
| "to_string (JArr xs) =
     map_option join_comma
       (those (map (\<lambda>x. if nullish x then Some [] else to_string x) xs))"
| "to_string (JObj kvs) =
     (if ''toString'' \<in> fst ` set kvs then None else Some ''[object Object]'')"

subsection \<open>The shared state\<close>

text \<open>
  \<^verbatim>\<open>interface SocketUser { userId; username; socketId; status; lastSeen }\<close>.  The
  status is declared \<^verbatim>\<open>'online' | 'away' | 'busy'\<close>, but the handler stores whatever
  the payload carried, so the field holds a JavaScript value.
\<close>

record SocketUser =
  userId :: string
  username :: string
  socketId :: string
  status :: jsval

text \<open>
  A JavaScript Map keeps its keys in insertion order: \<^verbatim>\<open>set\<close> on a key that is there
  replaces the value in place and appends otherwise (\<open>AList.update\<close>), \<^verbatim>\<open>delete\<close>
  removes the entry (\<open>AList.delete\<close>), \<^verbatim>\<open>get\<close> is \<open>map_of\<close>.

  Beside the two Maps of the module, the state holds what Socket.IO keeps: the
  connected sockets of the namespace, the room memberships of the adapter as pairs
  (room, socket id), the \<^verbatim>\<open>userId\<close> and \<^verbatim>\<open>username\<close> the authentication middleware
  attached to every socket created so far, and the sockets on which the connection
  handler has registered its listeners.
\<close>

record hub =
  connectedUsers :: "(string \<times> SocketUser) list"
  userSockets :: "(string \<times> string) list"
  sockets :: "string list"
  rooms :: "(string \<times> string) list"
  socketAuth :: "(string \<times> string \<times> string) list"
  listening :: "string list"

definition hub0 :: hub where
  "hub0 = \<lparr>connectedUsers = [], userSockets = [], sockets = [], rooms = [],
           socketAuth = [], listening = []\<rparr>"

text \<open>An emitted event: the socket it is written to, the event name and the payload.\<close>

type_synonym emission = "string \<times> string \<times> jsval"

subsection \<open>Socket.IO primitives\<close>

text \<open>
  \<^verbatim>\<open>io.to(room).emit\<close> writes to every connected socket in the room;
  \<^verbatim>\<open>socket.to(room).emit\<close> to every one but the sender; \<^verbatim>\<open>socket.broadcast.emit\<close> to
  every connected socket but the sender; \<^verbatim>\<open>socket.emit\<close> to the socket itself, and a
  closed socket drops the packet.  A socket joins the room named by its own id when it
  connects and leaves every room when it disconnects, before the \<^verbatim>\<open>disconnect\<close>
  listeners run.  The order in which one emit writes to its recipients is not modelled:
  the lists below take the connection order.
\<close>

definition room_members :: "hub \<Rightarrow> string \<Rightarrow> string list" where
  "room_members s r = filter (\<lambda>t. (r, t) \<in> set (rooms s)) (sockets s)"

definition io_to_emit :: "hub \<Rightarrow> string \<Rightarrow> string \<Rightarrow> jsval \<Rightarrow> emission list" where
  "io_to_emit s r ev d = map (\<lambda>t. (t, ev, d)) (room_members s r)"

definition socket_to_emit :: "hub \<Rightarrow> string \<Rightarrow> string \<Rightarrow> string \<Rightarrow> jsval \<Rightarrow> emission list" where
  "socket_to_emit s sid r ev d =
     map (\<lambda>t. (t, ev, d)) (filter (\<lambda>t. t \<noteq> sid) (room_members s r))"

definition socket_broadcast_emit :: "hub \<Rightarrow> string \<Rightarrow> string \<Rightarrow> jsval \<Rightarrow> emission list" where
  "socket_broadcast_emit s sid ev d =
     map (\<lambda>t. (t, ev, d)) (filter (\<lambda>t. t \<noteq> sid) (sockets s))"

definition socket_emit :: "hub \<Rightarrow> string \<Rightarrow> string \<Rightarrow> jsval \<Rightarrow> emission list" where
  "socket_emit s sid ev d = (if sid \<in> set (sockets s) then [(sid, ev, d)] else [])"

definition socket_join :: "string \<Rightarrow> string \<Rightarrow> hub \<Rightarrow> hub" where
  "socket_join sid r s = s\<lparr>rooms := List.insert (r, sid) (rooms s)\<rparr>"

definition socket_leave :: "string \<Rightarrow> string \<Rightarrow> hub \<Rightarrow> hub" where
  "socket_leave sid r s = s\<lparr>rooms := removeAll (r, sid) (rooms s)\<rparr>"

definition socket_disconnect :: "string \<Rightarrow> hub \<Rightarrow> hub" where
  "socket_disconnect sid s =
     s\<lparr>rooms := filter (\<lambda>(r, t). t \<noteq> sid) (rooms s),
       sockets := removeAll sid (sockets s)\<rparr>"

definition error_event :: "string \<Rightarrow> jsval" where
  "error_event m = JObj [(''message'', JStr m)]"

subsection \<open>The connection handler (lines 64-108 and 462-466)\<close>

text \<open>
  \<^verbatim>\<open>userId\<close> and \<^verbatim>\<open>username\<close> are constants of the closure of one connection; every
  handler below takes them and the socket id as arguments.  \<open>dbOk\<close> tells whether the
  awaited \<^verbatim>\<open>User.findByIdAndUpdate\<close> resolved; when it rejects, the \<^verbatim>\<open>catch\<close> emits
  \<^verbatim>\<open>error\<close> and disconnects the socket, on which no listener is registered yet.
\<close>

definition online_summary :: "SocketUser \<Rightarrow> jsval" where
  "online_summary u =
     JObj [(''userId'', JStr (userId u)), (''username'', JStr (username u)),
           (''status'', status u)]"

definition on_connection :: "string \<Rightarrow> string \<Rightarrow> string \<Rightarrow> bool \<Rightarrow> hub \<Rightarrow> hub \<times> emission list" where
  "on_connection sid uid uname dbOk s =
     (if \<not> dbOk
      then (socket_disconnect sid s,
            socket_emit s sid ''error'' (error_event ''Connection error''))
      else
        let userInfo = \<lparr>userId = uid, username = uname, socketId = sid,
                         status = JStr ''online''\<rparr>;
            s1 = s\<lparr>connectedUsers := AList.update sid userInfo (connectedUsers s),
                   userSockets := AList.update uid sid (userSockets s)\<rparr>;
            s2 = socket_join sid (''user:'' @ uid) s1;
            e1 = socket_broadcast_emit s2 sid ''user:online''
                   (JObj [(''userId'', JStr uid), (''username'', JStr uname),
                          (''status'', JStr ''online'')]);
            onlineUsers = map (\<lambda>u. online_summary u) (map snd (connectedUsers s2));
            e2 = socket_emit s2 sid ''users:online'' (JArr onlineUsers);
            s3 = s2\<lparr>listening := List.insert sid (listening s2)\<rparr>
        in (s3, e1 @ e2))"

subsection \<open>Presence and rooms (lines 110-179)\<close>

text \<open>
  After the registry update and the broadcast, still inside the \<^verbatim>\<open>try\<close>, line 132
  builds the log line \<^verbatim>\<open>`Status changed to ${status}`\<close>: a status that cannot be
  converted throws there, and the \<^verbatim>\<open>catch\<close> adds an \<^verbatim>\<open>error\<close> event to the sender.
\<close>

definition on_user_status :: "string \<Rightarrow> string \<Rightarrow> jsval \<Rightarrow> bool \<Rightarrow> hub \<Rightarrow> hub \<times> emission list" where
  "on_user_status sid uid data dbOk s =
     (if nullish data \<or> \<not> dbOk
      then (s, socket_emit s sid ''error'' (error_event ''Failed to update status''))
      else
        let st = get_prop data ''status'';
            s1 = (case map_of (connectedUsers s) sid of
                    None \<Rightarrow> s
                  | Some userInfo \<Rightarrow>
                      s\<lparr>connectedUsers :=
                          AList.update sid (userInfo\<lparr>status := st\<rparr>) (connectedUsers s)\<rparr>);
            e1 = socket_broadcast_emit s1 sid ''user:status_changed''
                   (JObj [(''userId'', JStr uid), (''status'', st)])
        in case to_string st of
             None \<Rightarrow>
               (s1, e1 @ socket_emit s1 sid ''error'' (error_event ''Failed to update status''))
           | Some line \<Rightarrow> (s1, e1))"

definition on_chat_join :: "string \<Rightarrow> string \<Rightarrow> string \<Rightarrow> jsval \<Rightarrow> hub \<Rightarrow> hub \<times> emission list" where
  "on_chat_join sid uid uname data s =
     (if nullish data
      then (s, socket_emit s sid ''error'' (error_event ''Failed to join chat''))
      else
        let chatId = get_prop data ''chatId'' in
        case to_string chatId of
          None \<Rightarrow> (s, socket_emit s sid ''error'' (error_event ''Failed to join chat''))
        | Some c \<Rightarrow>
            let s1 = socket_join sid (''chat:'' @ c) s
            in (s1, socket_to_emit s1 sid (''chat:'' @ c) ''chat:user_joined''
                      (JObj [(''userId'', JStr uid), (''username'', JStr uname),
                             (''chatId'', chatId)])))"

text \<open>The \<^verbatim>\<open>catch\<close> of \<^verbatim>\<open>chat:leave\<close> only logs.\<close>

definition on_chat_leave :: "string \<Rightarrow> string \<Rightarrow> string \<Rightarrow> jsval \<Rightarrow> hub \<Rightarrow> hub \<times> emission list" where
  "on_chat_leave sid uid uname data s =
     (if nullish data then (s, [])
      else
        let chatId = get_prop data ''chatId'' in
        case to_string chatId of
          None \<Rightarrow> (s, [])
        | Some c \<Rightarrow>
            let s1 = socket_leave sid (''chat:'' @ c) s
            in (s1, socket_to_emit s1 sid (''chat:'' @ c) ''chat:user_left''
                      (JObj [(''userId'', JStr uid), (''username'', JStr uname),
                             (''chatId'', chatId)])))"

subsection \<open>Messages (lines 181-304)\<close>

text \<open>
  A destructuring default (\<^verbatim>\<open>type = 'text'\<close>, \<^verbatim>\<open>attachments = []\<close>) replaces
  \<^verbatim>\<open>undefined\<close> only.
\<close>

definition or_default :: "jsval \<Rightarrow> jsval \<Rightarrow> jsval" where
  "or_default v d = (if v = JUndefined then d else v)"

text \<open>The object \<^verbatim>\<open>message\<close> of lines 189-200.\<close>

definition new_message :: "string \<Rightarrow> string \<Rightarrow> jsval \<Rightarrow> jsval" where
  "new_message uid uname data =
     JObj [(''chatId'', get_prop data ''chatId''), (''senderId'', JStr uid),
           (''senderUsername'', JStr uname),
           (''content'', get_prop data ''content''),
           (''type'', or_default (get_prop data ''type'') (JStr ''text'')),
           (''replyTo'', get_prop data ''replyTo''),
           (''attachments'', or_default (get_prop data ''attachments'') (JArr [])),
           (''status'', JStr ''sent'')]"

definition on_message_send :: "string \<Rightarrow> string \<Rightarrow> string \<Rightarrow> jsval \<Rightarrow> hub \<Rightarrow> hub \<times> emission list" where
  "on_message_send sid uid uname data s =
     (if nullish data
      then (s, socket_emit s sid ''error'' (error_event ''Failed to send message''))
      else
        let chatId = get_prop data ''chatId'';
            message = new_message uid uname data
        in case to_string chatId of
             None \<Rightarrow> (s, socket_emit s sid ''error'' (error_event ''Failed to send message''))
           | Some c \<Rightarrow> (s, io_to_emit s (''chat:'' @ c) ''message:new'' message))"

text \<open>
  In \<^verbatim>\<open>message:edit\<close>, \<^verbatim>\<open>message:delete\<close> and \<^verbatim>\<open>message:react\<close> the emit is commented
  out (\<^verbatim>\<open>// io.to(`chat:${chatId}`).emit(...)\<close>): what is left is the destructuring,
  whose TypeError the \<^verbatim>\<open>catch\<close> answers with an \<^verbatim>\<open>error\<close> event to the sender.
\<close>

definition on_message_edit :: "string \<Rightarrow> string \<Rightarrow> jsval \<Rightarrow> hub \<Rightarrow> hub \<times> emission list" where
  "on_message_edit sid uid data s =
     (if nullish data
      then (s, socket_emit s sid ''error'' (error_event ''Failed to edit message''))
      else (s, []))"

definition on_message_delete :: "string \<Rightarrow> string \<Rightarrow> jsval \<Rightarrow> hub \<Rightarrow> hub \<times> emission list" where
  "on_message_delete sid uid data s =
     (if nullish data
      then (s, socket_emit s sid ''error'' (error_event ''Failed to delete message''))
      else (s, []))"

definition on_message_react :: "string \<Rightarrow> string \<Rightarrow> string \<Rightarrow> jsval \<Rightarrow> hub \<Rightarrow> hub \<times> emission list" where
  "on_message_react sid uid uname data s =
     (if nullish data
      then (s, socket_emit s sid ''error'' (error_event ''Failed to update reaction''))
      else (s, []))"

text \<open>
  The typing handlers have no \<^verbatim>\<open>try\<close>: a TypeError leaves the handler uncaught,
  \<open>None\<close> here, before anything was emitted.  It ends at the process-level handler
  that \<^verbatim>\<open>utils/logger.ts\<close> installs (\<^verbatim>\<open>logger.exceptions.handle\<close> with
  \<^verbatim>\<open>exitOnError: false\<close>), which logs it and lets the process run on.
\<close>

definition on_typing :: "string \<Rightarrow> string \<Rightarrow> string \<Rightarrow> string \<Rightarrow> jsval \<Rightarrow> hub \<Rightarrow> (hub \<times> emission list) option" where
  "on_typing ev sid uid uname data s =
     (if nullish data then None
      else
        let chatId = get_prop data ''chatId'' in
        case to_string chatId of
          None \<Rightarrow> None
        | Some c \<Rightarrow>
            Some (s, socket_to_emit s sid (''chat:'' @ c) ev
                       (JObj [(''userId'', JStr uid), (''username'', JStr uname),
                              (''chatId'', chatId)])))"

definition on_typing_start :: "string \<Rightarrow> string \<Rightarrow> string \<Rightarrow> jsval \<Rightarrow> hub \<Rightarrow> (hub \<times> emission list) option" where
  "on_typing_start = on_typing ''typing:start''"

definition on_typing_stop :: "string \<Rightarrow> string \<Rightarrow> string \<Rightarrow> jsval \<Rightarrow> hub \<Rightarrow> (hub \<times> emission list) option" where
  "on_typing_stop = on_typing ''typing:stop''"

subsection \<open>Calls and WebRTC signaling (lines 306-431)\<close>

text \<open>
  In \<^verbatim>\<open>call:start\<close> the log line \<^verbatim>\<open>`Started ${type} call`\<close> of line 324 comes after
  the emit: a \<^verbatim>\<open>type\<close> that cannot be converted throws there, and the \<^verbatim>\<open>catch\<close> adds
  an \<^verbatim>\<open>error\<close> event to the sender.
\<close>

definition on_call_start :: "string \<Rightarrow> string \<Rightarrow> string \<Rightarrow> jsval \<Rightarrow> hub \<Rightarrow> hub \<times> emission list" where
  "on_call_start sid uid uname data s =
     (if nullish data
      then (s, socket_emit s sid ''error'' (error_event ''Failed to start call''))
      else
        let chatId = get_prop data ''chatId'';
            callData = JObj [(''chatId'', chatId), (''initiatorId'', JStr uid),
                             (''initiatorUsername'', JStr uname),
                             (''type'', get_prop data ''type''),
                             (''status'', JStr ''ringing'')]
        in case to_string chatId of
             None \<Rightarrow> (s, socket_emit s sid ''error'' (error_event ''Failed to start call''))
           | Some c \<Rightarrow>
               let e1 = socket_to_emit s sid (''chat:'' @ c) ''call:incoming'' callData
               in case to_string (get_prop data ''type'') of
                    None \<Rightarrow>
                      (s, e1 @ socket_emit s sid ''error'' (error_event ''Failed to start call''))
                  | Some line \<Rightarrow> (s, e1))"

definition on_call_accept :: "string \<Rightarrow> string \<Rightarrow> string \<Rightarrow> jsval \<Rightarrow> hub \<Rightarrow> hub \<times> emission list" where
  "on_call_accept sid uid uname data s =
     (if nullish data
      then (s, socket_emit s sid ''error'' (error_event ''Failed to accept call''))
      else (s, socket_broadcast_emit s sid ''call:accepted''
                 (JObj [(''callId'', get_prop data ''callId''), (''acceptedBy'', JStr uid),
                        (''acceptedByUsername'', JStr uname)])))"

text \<open>The \<^verbatim>\<open>catch\<close> of \<^verbatim>\<open>call:decline\<close> and of \<^verbatim>\<open>call:end\<close> only logs.\<close>

definition on_call_decline :: "string \<Rightarrow> string \<Rightarrow> string \<Rightarrow> jsval \<Rightarrow> hub \<Rightarrow> hub \<times> emission list" where
  "on_call_decline sid uid uname data s =
     (if nullish data then (s, [])
      else (s, socket_broadcast_emit s sid ''call:declined''
                 (JObj [(''callId'', get_prop data ''callId''), (''declinedBy'', JStr uid),
                        (''declinedByUsername'', JStr uname)])))"

definition on_call_end :: "string \<Rightarrow> string \<Rightarrow> string \<Rightarrow> jsval \<Rightarrow> hub \<Rightarrow> hub \<times> emission list" where
  "on_call_end sid uid uname data s =
     (if nullish data then (s, [])
      else (s, socket_broadcast_emit s sid ''call:ended''
                 (JObj [(''callId'', get_prop data ''callId''), (''endedBy'', JStr uid),
                        (''endedByUsername'', JStr uname)])))"

text \<open>
  \<^verbatim>\<open>userSockets.get(targetUserId)\<close>: the keys of the Map are strings, so a target that
  is not a string finds nothing.  \<^verbatim>\<open>if (targetSocketId)\<close> is the truthiness test, which
  \<^verbatim>\<open>undefined\<close> and the empty string fail: \<open>truthy_id\<close> keeps the id that passes.
\<close>

definition lookup_target :: "hub \<Rightarrow> jsval \<Rightarrow> string option" where
  "lookup_target s target =
     (case target of JStr u \<Rightarrow> map_of (userSockets s) u | _ \<Rightarrow> None)"

definition truthy_id :: "string option \<Rightarrow> string option" where
  "truthy_id t = (case t of None \<Rightarrow> None | Some i \<Rightarrow> if i = [] then None else Some i)"

text \<open>
  The three signaling handlers differ in the event name and in the name of the relayed
  field (\<^verbatim>\<open>offer\<close>, \<^verbatim>\<open>answer\<close>, \<^verbatim>\<open>candidate\<close>).  They have no \<^verbatim>\<open>try\<close>.
\<close>

definition on_webrtc :: "string \<Rightarrow> string \<Rightarrow> string \<Rightarrow> string \<Rightarrow> string \<Rightarrow> jsval \<Rightarrow> hub \<Rightarrow> (hub \<times> emission list) option" where
  "on_webrtc ev field sid uid uname data s =
     (if nullish data then None
      else
        let targetSocketId = lookup_target s (get_prop data ''targetUserId'') in
        case truthy_id targetSocketId of
          Some t \<Rightarrow>
            Some (s, io_to_emit s t ev
                       (JObj [(''callId'', get_prop data ''callId''),
                              (field, get_prop data field),
                              (''fromUserId'', JStr uid), (''fromUsername'', JStr uname)]))
        | None \<Rightarrow> Some (s, []))"

definition on_webrtc_offer :: "string \<Rightarrow> string \<Rightarrow> string \<Rightarrow> jsval \<Rightarrow> hub \<Rightarrow> (hub \<times> emission list) option" where
  "on_webrtc_offer = on_webrtc ''webrtc:offer'' ''offer''"

definition on_webrtc_answer :: "string \<Rightarrow> string \<Rightarrow> string \<Rightarrow> jsval \<Rightarrow> hub \<Rightarrow> (hub \<times> emission list) option" where
  "on_webrtc_answer = on_webrtc ''webrtc:answer'' ''answer''"

definition on_webrtc_ice_candidate :: "string \<Rightarrow> string \<Rightarrow> string \<Rightarrow> jsval \<Rightarrow> hub \<Rightarrow> (hub \<times> emission list) option" where
  "on_webrtc_ice_candidate = on_webrtc ''webrtc:ice-candidate'' ''candidate''"

subsection \<open>Disconnection (lines 433-460) and the exported helpers (lines 486-506)\<close>

text \<open>
  The listener runs after Socket.IO has taken the socket out of the namespace and of its
  rooms.  When the awaited store update rejects, the \<^verbatim>\<open>catch\<close> logs and the two
  \<^verbatim>\<open>delete\<close> calls are not reached.
\<close>

definition on_disconnect :: "string \<Rightarrow> string \<Rightarrow> string \<Rightarrow> bool \<Rightarrow> hub \<Rightarrow> hub \<times> emission list" where
  "on_disconnect sid uid uname dbOk s =
     (if \<not> dbOk then (s, [])
      else
        let s1 = s\<lparr>connectedUsers := AList.delete sid (connectedUsers s),
                   userSockets := AList.delete uid (userSockets s)\<rparr>
        in (s1, socket_broadcast_emit s1 sid ''user:offline''
                  (JObj [(''userId'', JStr uid), (''username'', JStr uname)])))"

definition getConnectedUsers :: "hub \<Rightarrow> SocketUser list" where
  "getConnectedUsers s = map snd (connectedUsers s)"

definition getUserSocketId :: "hub \<Rightarrow> string \<Rightarrow> string option" where
  "getUserSocketId s u = map_of (userSockets s) u"

definition isUserOnline :: "hub \<Rightarrow> string \<Rightarrow> bool" where
  "isUserOnline s u = (map_of (userSockets s) u \<noteq> None)"

definition sendToUser :: "hub \<Rightarrow> string \<Rightarrow> string \<Rightarrow> jsval \<Rightarrow> bool \<times> emission list" where
  "sendToUser s u ev d =
     (let socketId = map_of (userSockets s) u in
      case truthy_id socketId of
        Some t \<Rightarrow> (True, io_to_emit s t ev d)
      | None \<Rightarrow> (False, []))"

subsection \<open>The events of a run\<close>

text \<open>
  The inbound vocabulary of a connection: one constructor for each \<^verbatim>\<open>socket.on\<close> of
  the connection handler, with its payload; \<^verbatim>\<open>user:status\<close> also carries the outcome
  of the store update it awaits.  An event name without a listener is ignored by
  Socket.IO.
\<close>

datatype client_event =
    UserStatus jsval bool
  | ChatJoin jsval
  | ChatLeave jsval
  | MessageSend jsval
  | MessageEdit jsval
  | MessageDelete jsval
  | TypingStart jsval
  | TypingStop jsval
  | MessageReact jsval
  | CallStart jsval
  | CallAccept jsval
  | CallDecline jsval
  | CallEnd jsval
  | WebrtcOffer jsval
  | WebrtcAnswer jsval
  | WebrtcIceCandidate jsval
  | Unlistened string jsval

fun payload :: "client_event \<Rightarrow> jsval" where
  "payload (UserStatus d b) = d"
| "payload (ChatJoin d) = d"
| "payload (ChatLeave d) = d"
| "payload (MessageSend d) = d"
| "payload (MessageEdit d) = d"
| "payload (MessageDelete d) = d"
| "payload (TypingStart d) = d"
| "payload (TypingStop d) = d"
| "payload (MessageReact d) = d"
| "payload (CallStart d) = d"
| "payload (CallAccept d) = d"
| "payload (CallDecline d) = d"
| "payload (CallEnd d) = d"
| "payload (WebrtcOffer d) = d"
| "payload (WebrtcAnswer d) = d"
| "payload (WebrtcIceCandidate d) = d"
| "payload (Unlistened n d) = d"

text \<open>An uncaught exception of a listener leaves the state as it was, with nothing emitted.\<close>

definition or_thrown :: "hub \<Rightarrow> (hub \<times> emission list) option \<Rightarrow> hub \<times> emission list" where
  "or_thrown s r = (case r of None \<Rightarrow> (s, []) | Some x \<Rightarrow> x)"

fun dispatch :: "client_event \<Rightarrow> string \<Rightarrow> string \<Rightarrow> string \<Rightarrow> hub \<Rightarrow> hub \<times> emission list" where
  "dispatch (UserStatus d dbOk) sid uid uname s = on_user_status sid uid d dbOk s"
| "dispatch (ChatJoin d) sid uid uname s = on_chat_join sid uid uname d s"
| "dispatch (ChatLeave d) sid uid uname s = on_chat_leave sid uid uname d s"
| "dispatch (MessageSend d) sid uid uname s = on_message_send sid uid uname d s"
| "dispatch (MessageEdit d) sid uid uname s = on_message_edit sid uid d s"
| "dispatch (MessageDelete d) sid uid uname s = on_message_delete sid uid d s"
| "dispatch (TypingStart d) sid uid uname s = or_thrown s (on_typing_start sid uid uname d s)"
| "dispatch (TypingStop d) sid uid uname s = or_thrown s (on_typing_stop sid uid uname d s)"
| "dispatch (MessageReact d) sid uid uname s = on_message_react sid uid uname d s"
| "dispatch (CallStart d) sid uid uname s = on_call_start sid uid uname d s"
| "dispatch (CallAccept d) sid uid uname s = on_call_accept sid uid uname d s"
| "dispatch (CallDecline d) sid uid uname s = on_call_decline sid uid uname d s"
| "dispatch (CallEnd d) sid uid uname s = on_call_end sid uid uname d s"
| "dispatch (WebrtcOffer d) sid uid uname s = or_thrown s (on_webrtc_offer sid uid uname d s)"
| "dispatch (WebrtcAnswer d) sid uid uname s = or_thrown s (on_webrtc_answer sid uid uname d s)"
| "dispatch (WebrtcIceCandidate d) sid uid uname s =
     or_thrown s (on_webrtc_ice_candidate sid uid uname d s)"
| "dispatch (Unlistened n d) sid uid uname s = (s, [])"

text \<open>
  What happens to the hub: a socket passes the authentication middleware and connects
  (with the identity the middleware attached, and the outcome of the store update the
  connection handler awaits), a connected socket delivers a client event, or a connected
  socket disconnects (with the outcome of the store update the listener awaits).

  A step runs its handler to the end: a connect is the creation of the socket followed
  at once by the connection handler, although the handler awaits the store (line 70)
  before it registers the session and its listeners.  A socket that closes during that
  await is therefore no state of a run; what the handler does on it is stated on
  \<open>on_connection\<close> itself.

  Socket.IO draws a fresh id for every socket, from letters, digits, \<^verbatim>\<open>-\<close> and \<^verbatim>\<open>_\<close>;
  the model asks of an id that it is not empty, has no colon and was not used before,
  and drops an event that Socket.IO cannot produce: a connect with another id, an event
  or a disconnect of a socket that is not connected, a client event on a socket without
  listeners.
\<close>

datatype event =
    Connect string string string bool
  | Receive string client_event
  | Disconnect string bool

definition valid_socket_id :: "string \<Rightarrow> bool" where
  "valid_socket_id sid = (sid \<noteq> [] \<and> CHR '':'' \<notin> set sid)"

definition socket_connect :: "string \<Rightarrow> string \<Rightarrow> string \<Rightarrow> hub \<Rightarrow> hub" where
  "socket_connect sid uid uname s =
     s\<lparr>sockets := sockets s @ [sid],
       rooms := List.insert (sid, sid) (rooms s),
       socketAuth := socketAuth s @ [(sid, uid, uname)]\<rparr>"

fun step :: "event \<Rightarrow> hub \<Rightarrow> hub \<times> emission list" where
  "step (Connect sid uid uname dbOk) s =
     (if valid_socket_id sid \<and> map_of (socketAuth s) sid = None
      then on_connection sid uid uname dbOk (socket_connect sid uid uname s)
      else (s, []))"
| "step (Receive sid ev) s =
     (if sid \<in> set (sockets s) \<and> sid \<in> set (listening s)
      then (case map_of (socketAuth s) sid of
              None \<Rightarrow> (s, [])
            | Some (uid, uname) \<Rightarrow> dispatch ev sid uid uname s)
      else (s, []))"
| "step (Disconnect sid dbOk) s =
     (if sid \<in> set (sockets s)
      then (let s1 = socket_disconnect sid s in
            if sid \<in> set (listening s)
            then (case map_of (socketAuth s) sid of
                    None \<Rightarrow> (s1, [])
                  | Some (uid, uname) \<Rightarrow> on_disconnect sid uid uname dbOk s1)
            else (s1, []))
      else (s, []))"

fun run :: "hub \<Rightarrow> event list \<Rightarrow> hub" where
  "run s [] = s"
| "run s (e # es) = run (fst (step e s)) es"

subsection \<open>Two runs used as concrete inputs\<close>

text \<open>
  Alice (user \<open>A\<close>, socket \<open>s1\<close>) and Bob (user \<open>B\<close>, socket \<open>s2\<close>) connect and both
  join the chat \<open>room1\<close>.
\<close>

definition room1 :: jsval where
  "room1 = JObj [(''chatId'', JStr ''room1'')]"

definition two_in_room1 :: "event list" where
  "two_in_room1 =
     [Connect ''s1'' ''A'' ''alice'' True, Connect ''s2'' ''B'' ''bob'' True,
      Receive ''s1'' (ChatJoin room1), Receive ''s2'' (ChatJoin room1)]"


subsection \<open>Invariants of the reachable states\<close>

text \<open>
  \<open>wf_hub\<close> is what Socket.IO maintains: the connected sockets are distinct, each was
  created with a valid id, a room holds connected sockets only, a room without a colon
  in its name is the own room of the socket of that name, and every connected socket is
  in its own room.  \<open>registry_inv\<close> ties the two Maps of the module: an index entry
  names a registered socket of that user, and a registered socket carries the user id
  of its handshake.
\<close>

definition wf_hub :: "hub \<Rightarrow> bool" where
  "wf_hub s \<longleftrightarrow>
     distinct (sockets s) \<and>
     set (sockets s) \<subseteq> fst ` set (socketAuth s) \<and>
     (\<forall>t \<in> fst ` set (socketAuth s). valid_socket_id t) \<and>
     (\<forall>(r, t) \<in> set (rooms s). t \<in> set (sockets s) \<and> (r = t \<or> CHR '':'' \<in> set r)) \<and>
     (\<forall>t \<in> set (sockets s). (t, t) \<in> set (rooms s))"

definition registry_inv :: "hub \<Rightarrow> bool" where
  "registry_inv s \<longleftrightarrow>
     (\<forall>u t. map_of (userSockets s) u = Some t \<longrightarrow>
        (\<exists>ui. map_of (connectedUsers s) t = Some ui \<and> userId ui = u)) \<and>
     (\<forall>t ui. map_of (connectedUsers s) t = Some ui \<longrightarrow>
        (\<exists>n. map_of (socketAuth s) t = Some (userId ui, n)))"

text \<open>The same user connects twice.\<close>

definition twice_A :: "event list" where
  "twice_A = [Connect ''s1'' ''A'' ''alice'' True, Connect ''s2'' ''A'' ''alice'' True]"

text \<open>The message of the scenario, and a socket that was connected and is no more.\<close>

definition hi :: jsval where
  "hi = JObj [(''chatId'', JStr ''room1''), (''content'', JStr ''hi'')]"

definition gone :: "string \<Rightarrow> hub \<Rightarrow> bool" where
  "gone t s \<longleftrightarrow> t \<notin> set (sockets s) \<and> map_of (socketAuth s) t \<noteq> None"

text \<open>
  Bob's socket disconnects while the account store fails, and Alice sends Bob an offer.
\<close>

definition stale_B :: "event list" where
  "stale_B = two_in_room1 @ [Disconnect ''s2'' False]"

definition offer_to_B :: jsval where
  "offer_to_B = JObj [(''callId'', JStr ''c1''), (''offer'', JStr ''sdp''),
                      (''targetUserId'', JStr ''B'')]"

text \<open>Carol (user \<open>C\<close>, socket \<open>s3\<close>) connects and joins no chat; a call payload.\<close>

definition with_carol :: "event list" where
  "with_carol = two_in_room1 @ [Connect ''s3'' ''C'' ''carol'' True]"

definition call_c1 :: jsval where
  "call_c1 = JObj [(''callId'', JStr ''c1'')]"

text \<open>Alice's socket has disconnected; a status payload.\<close>

definition alice_left :: "event list" where
  "alice_left = two_in_room1 @ [Disconnect ''s1'' True]"

definition away :: jsval where
  "away = JObj [(''status'', JStr ''away'')]"

text \<open>
  Bob joins with a payload that has no \<^verbatim>\<open>chatId\<close>.
\<close>

definition both_join_malformed :: "event list" where
  "both_join_malformed =
     [Connect ''s1'' ''A'' ''alice'' True, Connect ''s2'' ''B'' ''bob'' True,
      Receive ''s2'' (ChatJoin (JObj []))]"

subsection \<open>The authentication middleware (lines 25-61)\<close>

text \<open>
  \<^verbatim>\<open>io.use\<close> is the gate every socket connection passes.  The Express middleware
  \<^verbatim>\<open>authenticateToken\<close> of \<^verbatim>\<open>middleware/auth.ts\<close> guards HTTP routes and takes no part
  in a connection; it is not modelled.
\<close>

text \<open>
  \<^verbatim>\<open>jwt.verify(token, jwtSecret)\<close> returns the decoded payload, of which the middleware
  reads \<^verbatim>\<open>userId\<close>, or throws an error with a message.
\<close>

datatype jwt_result = Decoded string | VerifyThrows string

text \<open>The fields the middleware reads of a \<^verbatim>\<open>User\<close> document.\<close>

record account =
  account_id :: string
  account_username :: string
  isActive :: bool

text \<open>\<^verbatim>\<open>User.findById\<close> resolves to a document or to \<^verbatim>\<open>null\<close>, or rejects.\<close>

datatype find_result = Found account | NotFound | FindThrows string

text \<open>
  \<^verbatim>\<open>logSecurity(event, null, meta)\<close> writes a warning with the event and the fields of
  \<^verbatim>\<open>meta\<close> (and a timestamp, left out); \<^verbatim>\<open>logger.info\<close> writes a line.
\<close>

datatype log_entry =
    Security string "(string \<times> string) list"
  | Info string

text \<open>
  What the caller observes: \<^verbatim>\<open>next()\<close> with \<^verbatim>\<open>socket.userId\<close> and \<^verbatim>\<open>socket.username\<close>
  set, or \<^verbatim>\<open>next(new Error(message))\<close>.
\<close>

datatype gate_result = Admitted string string | Rejected string

text \<open>
  The verifier and the account store are parameters.  The credential is
  \<^verbatim>\<open>socket.handshake.auth.token\<close>, here a string when present; \<^verbatim>\<open>!token\<close> holds of a
  missing token and of the empty string.  Every exception of the \<^verbatim>\<open>try\<close> block, the
  verifier's or the store's, lands in the one \<^verbatim>\<open>catch\<close>.
\<close>

definition io_use ::
  "(string \<Rightarrow> jwt_result) \<Rightarrow> (string \<Rightarrow> find_result) \<Rightarrow> string \<Rightarrow> string option
     \<Rightarrow> gate_result \<times> log_entry list" where
  "io_use verify findById sid token =
     (case token of
        None \<Rightarrow>
          (Rejected ''Authentication token required'',
           [Security ''Socket connection without token'' [(''socketId'', sid)]])
      | Some t \<Rightarrow>
          if t = []
          then (Rejected ''Authentication token required'',
                [Security ''Socket connection without token'' [(''socketId'', sid)]])
          else
            case verify t of
              VerifyThrows msg \<Rightarrow>
                (Rejected ''Authentication failed'',
                 [Security ''Socket authentication failed'' [(''socketId'', sid), (''error'', msg)]])
            | Decoded uid \<Rightarrow>
                (case findById uid of
                   FindThrows msg \<Rightarrow>
                     (Rejected ''Authentication failed'',
                      [Security ''Socket authentication failed''
                         [(''socketId'', sid), (''error'', msg)]])
                 | NotFound \<Rightarrow>
                     (Rejected ''Invalid user'',
                      [Security ''Socket connection with invalid user''
                         [(''socketId'', sid), (''userId'', uid)]])
                 | Found user \<Rightarrow>
                     if \<not> isActive user
                     then (Rejected ''Invalid user'',
                           [Security ''Socket connection with invalid user''
                              [(''socketId'', sid), (''userId'', uid)]])
                     else (Admitted (account_id user) (account_username user),
                           [Info (''Socket authenticated: '' @ account_username user
                                  @ '' ('' @ sid @ '')'')])))"

text \<open>The values a log holds: the fields of a security event, the text of a line.\<close>

definition logged_values :: "log_entry list \<Rightarrow> string list" where
  "logged_values ls =
     concat (map (\<lambda>l. case l of Security ev kvs \<Rightarrow> map snd kvs | Info line \<Rightarrow> [line]) ls)"

text \<open>Collaborators for concrete inputs.\<close>

definition decodes_u1 :: "string \<Rightarrow> jwt_result" where
  "decodes_u1 t = Decoded ''u1''"

definition no_account :: "string \<Rightarrow> find_result" where
  "no_account uid = NotFound"

definition deactivated_account :: "string \<Rightarrow> find_result" where
  "deactivated_account uid =
     Found \<lparr>account_id = uid, account_username = ''old'', isActive = False\<rparr>"

definition rejects_jwt :: "string \<Rightarrow> jwt_result" where
  "rejects_jwt t = VerifyThrows ''jwt malformed''"

text \<open>
  Carol's socket is created, and the connection handler awaits the store (line 70); in
  \<open>carol_closed\<close> the socket has closed before the handler resumes, when no
  \<^verbatim>\<open>disconnect\<close> listener is registered yet.
\<close>

definition carol_arrives :: hub where
  "carol_arrives = socket_connect ''s3'' ''C'' ''carol'' (run hub0 two_in_room1)"

definition carol_closed :: hub where
  "carol_closed = socket_disconnect ''s3'' carol_arrives"

text \<open>A status that cannot be converted to a string.\<close>

definition odd_status :: jsval where
  "odd_status = JObj [(''status'', JObj [(''toString'', JStr ''x'')])]"

section \<open>Properties\<close>

subsection \<open>What a handler leaves alone\<close>

lemmas handler_defs =
  on_user_status_def on_chat_join_def on_chat_leave_def on_message_send_def
  on_message_edit_def on_message_delete_def on_message_react_def on_typing_def
  on_typing_start_def on_typing_stop_def on_call_start_def on_call_accept_def
  on_call_decline_def on_call_end_def on_webrtc_def on_webrtc_offer_def
  on_webrtc_answer_def on_webrtc_ice_candidate_def or_thrown_def

lemma dispatch_frame:
  "sockets (fst (dispatch ev sid uid uname s)) = sockets s"
  "socketAuth (fst (dispatch ev sid uid uname s)) = socketAuth s"
  "listening (fst (dispatch ev sid uid uname s)) = listening s"
  "userSockets (fst (dispatch ev sid uid uname s)) = userSockets s"
  by (cases ev; simp add: handler_defs socket_join_def socket_leave_def Let_def
      split: option.splits)+

lemma dispatch_rooms:
  "(r, t) \<in> set (rooms (fst (dispatch ev sid uid uname s))) \<Longrightarrow>
     (r, t) \<in> set (rooms s) \<or> (t = sid \<and> (\<exists>c. r = ''chat:'' @ c))"
  by (cases ev; auto simp add: handler_defs socket_join_def socket_leave_def Let_def
      split: option.splits if_splits)

lemma dispatch_rooms_kept:
  "(r, t) \<in> set (rooms s) \<Longrightarrow> (\<forall>c. r \<noteq> ''chat:'' @ c) \<Longrightarrow>
     (r, t) \<in> set (rooms (fst (dispatch ev sid uid uname s)))"
  by (cases ev; auto simp add: handler_defs socket_join_def socket_leave_def Let_def
      split: option.splits if_splits)

lemma dispatch_registry:
  "connectedUsers (fst (dispatch ev sid uid uname s)) = connectedUsers s \<or>
   (\<exists>ui st. map_of (connectedUsers s) sid = Some ui \<and>
      connectedUsers (fst (dispatch ev sid uid uname s)) =
        AList.update sid (ui\<lparr>status := st\<rparr>) (connectedUsers s))"
  by (cases ev; auto simp add: handler_defs socket_join_def socket_leave_def Let_def
      split: option.splits if_splits)

lemma wf_hub0: "wf_hub hub0"
  by (simp add: wf_hub_def hub0_def)

lemma registry_inv0: "registry_inv hub0"
  by (simp add: registry_inv_def hub0_def)

lemma map_of_None_notin: "map_of xs k = None \<Longrightarrow> k \<notin> fst ` set xs"
  by (simp add: map_of_eq_None_iff)

lemma wf_dispatch:
  assumes "wf_hub s" "sid \<in> set (sockets s)"
  shows "wf_hub (fst (dispatch ev sid uid uname s))"
proof -
  let ?s' = "fst (dispatch ev sid uid uname s)"
  have colon: "CHR '':'' \<in> set (''chat:'' @ c)" for c by simp
  have own: "valid_socket_id t" if "t \<in> set (sockets s)" for t
    using assms(1) that by (auto simp: wf_hub_def)
  have "(t, t) \<in> set (rooms ?s')" if "t \<in> set (sockets s)" for t
  proof (rule dispatch_rooms_kept)
    show "(t, t) \<in> set (rooms s)" using assms(1) that by (auto simp: wf_hub_def)
    show "\<forall>c. t \<noteq> ''chat:'' @ c" using own[OF that] colon
      by (metis valid_socket_id_def)
  qed
  moreover have "t \<in> set (sockets s) \<and> (r = t \<or> CHR '':'' \<in> set r)"
    if "(r, t) \<in> set (rooms ?s')" for r t
    using dispatch_rooms[OF that] assms colon by (fastforce simp: wf_hub_def)
  ultimately show ?thesis
    using assms(1) by (auto simp: wf_hub_def dispatch_frame)
qed

lemma wf_socket_disconnect: "wf_hub s \<Longrightarrow> wf_hub (socket_disconnect sid s)"
  by (auto simp: wf_hub_def socket_disconnect_def distinct_removeAll)

lemma wf_on_disconnect: "wf_hub s \<Longrightarrow> wf_hub (fst (on_disconnect sid uid uname dbOk s))"
  by (auto simp: wf_hub_def on_disconnect_def Let_def)

lemma wf_on_connection:
  assumes "wf_hub s" "valid_socket_id sid" "map_of (socketAuth s) sid = None"
  shows "wf_hub (fst (on_connection sid uid uname dbOk (socket_connect sid uid uname s)))"
proof -
  have "sid \<notin> fst ` set (socketAuth s)" using assms(3) by (rule map_of_None_notin)
  then have "sid \<notin> set (sockets s)" using assms(1) by (auto simp: wf_hub_def)
  then show ?thesis
    using assms(1,2)
    by (cases dbOk)
       (auto simp: wf_hub_def on_connection_def socket_connect_def socket_join_def
          socket_disconnect_def Let_def distinct_removeAll)
qed

lemma wf_step: "wf_hub s \<Longrightarrow> wf_hub (fst (step e s))"
  by (cases e)
     (auto simp: wf_dispatch wf_on_connection wf_on_disconnect wf_socket_disconnect Let_def
        split: option.splits)

lemma wf_run: "wf_hub s \<Longrightarrow> wf_hub (run s evs)"
  by (induction evs arbitrary: s) (simp_all add: wf_step)

lemma map_of_snoc_fresh:
  "map_of xs k = None \<Longrightarrow> map_of (xs @ [(k, v)]) k' = (if k' = k then Some v else map_of xs k')"
  by (auto simp: map_add_def split: option.splits)

lemma registry_invD1:
  "registry_inv s \<Longrightarrow> map_of (userSockets s) u = Some t \<Longrightarrow>
     \<exists>ui. map_of (connectedUsers s) t = Some ui \<and> userId ui = u"
  unfolding registry_inv_def by blast

lemma registry_invD2:
  "registry_inv s \<Longrightarrow> map_of (connectedUsers s) t = Some ui \<Longrightarrow>
     \<exists>n. map_of (socketAuth s) t = Some (userId ui, n)"
  unfolding registry_inv_def by blast

lemma registry_invI:
  assumes "\<And>u t. map_of (userSockets s) u = Some t \<Longrightarrow>
             \<exists>ui. map_of (connectedUsers s) t = Some ui \<and> userId ui = u"
    and "\<And>t ui. map_of (connectedUsers s) t = Some ui \<Longrightarrow>
             \<exists>n. map_of (socketAuth s) t = Some (userId ui, n)"
  shows "registry_inv s"
  unfolding registry_inv_def using assms by blast

lemma registry_dispatch:
  assumes "registry_inv s"
  shows "registry_inv (fst (dispatch ev sid uid uname s))"
proof -
  let ?s' = "fst (dispatch ev sid uid uname s)"
  from dispatch_registry[of ev sid uid uname s]
  consider "connectedUsers ?s' = connectedUsers s"
    | ui st where "map_of (connectedUsers s) sid = Some ui"
        "connectedUsers ?s' = AList.update sid (ui\<lparr>status := st\<rparr>) (connectedUsers s)"
    by blast
  then show ?thesis
  proof cases
    case 1
    with assms show ?thesis by (simp add: registry_inv_def dispatch_frame)
  next
    case 2
    have look: "map_of (connectedUsers ?s') t =
        (if t = sid then Some (ui\<lparr>status := st\<rparr>) else map_of (connectedUsers s) t)" for t
      by (simp add: 2(2) update_conv')
    show ?thesis
    proof (rule registry_invI)
      fix u t assume "map_of (userSockets ?s') u = Some t"
      then have "map_of (userSockets s) u = Some t" by (simp add: dispatch_frame)
      from registry_invD1[OF assms this] obtain ui' where
        ui': "map_of (connectedUsers s) t = Some ui'" "userId ui' = u" by blast
      show "\<exists>ui. map_of (connectedUsers ?s') t = Some ui \<and> userId ui = u"
        using ui' 2(1) by (cases "t = sid") (simp_all add: look)
    next
      fix t ui' assume a: "map_of (connectedUsers ?s') t = Some ui'"
      show "\<exists>n. map_of (socketAuth ?s') t = Some (userId ui', n)"
      proof (cases "t = sid")
        case True
        with a have "ui' = ui\<lparr>status := st\<rparr>" by (simp add: look)
        with registry_invD2[OF assms 2(1)] True show ?thesis
          by (simp add: dispatch_frame)
      next
        case False
        with a have "map_of (connectedUsers s) t = Some ui'" by (simp add: look)
        from registry_invD2[OF assms this] show ?thesis by (simp add: dispatch_frame)
      qed
    qed
  qed
qed

lemma registry_fresh:
  assumes "registry_inv s" "map_of (socketAuth s) sid = None"
  shows "map_of (connectedUsers s) sid = None"
proof (cases "map_of (connectedUsers s) sid")
  case (Some ui)
  from registry_invD2[OF assms(1) Some] assms(2) show ?thesis by simp
qed simp

lemma registry_on_connection:
  assumes "registry_inv s" "map_of (socketAuth s) sid = None"
  shows "registry_inv (fst (on_connection sid uid uname dbOk (socket_connect sid uid uname s)))"
proof (cases dbOk)
  case False
  let ?s' = "fst (on_connection sid uid uname dbOk (socket_connect sid uid uname s))"
  have eqs: "userSockets ?s' = userSockets s" "connectedUsers ?s' = connectedUsers s"
    "socketAuth ?s' = socketAuth s @ [(sid, uid, uname)]"
    using False by (simp_all add: on_connection_def socket_connect_def socket_disconnect_def)
  have auth: "map_of (socketAuth ?s') k =
      (if k = sid then Some (uid, uname) else map_of (socketAuth s) k)" for k
    unfolding eqs(3) by (rule map_of_snoc_fresh[OF assms(2)])
  show ?thesis
  proof (rule registry_invI)
    fix u t assume "map_of (userSockets ?s') u = Some t"
    then show "\<exists>ui. map_of (connectedUsers ?s') t = Some ui \<and> userId ui = u"
      using registry_invD1[OF assms(1)] by (simp add: eqs)
  next
    fix t ui assume "map_of (connectedUsers ?s') t = Some ui"
    then have a: "map_of (connectedUsers s) t = Some ui" by (simp add: eqs)
    from registry_invD2[OF assms(1) a] obtain n where
      n: "map_of (socketAuth s) t = Some (userId ui, n)" by blast
    with assms(2) have "t \<noteq> sid" by auto
    with n show "\<exists>n. map_of (socketAuth ?s') t = Some (userId ui, n)"
      by (simp add: auth)
  qed
next
  case True
  let ?s' = "fst (on_connection sid uid uname dbOk (socket_connect sid uid uname s))"
  let ?info = "\<lparr>userId = uid, username = uname, socketId = sid, status = JStr ''online''\<rparr>"
  have eqs: "userSockets ?s' = AList.update uid sid (userSockets s)"
    "connectedUsers ?s' = AList.update sid ?info (connectedUsers s)"
    "socketAuth ?s' = socketAuth s @ [(sid, uid, uname)]"
    using True
    by (simp_all add: on_connection_def socket_connect_def socket_join_def Let_def)
  have auth: "map_of (socketAuth ?s') k =
      (if k = sid then Some (uid, uname) else map_of (socketAuth s) k)" for k
    unfolding eqs(3) by (rule map_of_snoc_fresh[OF assms(2)])
  note fresh = registry_fresh[OF assms]
  show ?thesis
  proof (rule registry_invI)
    fix u t assume a: "map_of (userSockets ?s') u = Some t"
    show "\<exists>ui. map_of (connectedUsers ?s') t = Some ui \<and> userId ui = u"
    proof (cases "u = uid")
      case True
      with a have "t = sid" by (simp add: eqs update_conv')
      with True show ?thesis by (simp add: eqs update_conv')
    next
      case False
      with a have "map_of (userSockets s) u = Some t" by (simp add: eqs update_conv')
      from registry_invD1[OF assms(1) this] obtain ui where
        ui: "map_of (connectedUsers s) t = Some ui" "userId ui = u" by blast
      with fresh have "t \<noteq> sid" by auto
      with ui show ?thesis by (simp add: eqs update_conv')
    qed
  next
    fix t ui assume a: "map_of (connectedUsers ?s') t = Some ui"
    show "\<exists>n. map_of (socketAuth ?s') t = Some (userId ui, n)"
    proof (cases "t = sid")
      case True
      with a have "ui = ?info" by (simp add: eqs update_conv')
      with True show ?thesis by (simp add: auth)
    next
      case False
      with a have "map_of (connectedUsers s) t = Some ui" by (simp add: eqs update_conv')
      from registry_invD2[OF assms(1) this] False show ?thesis
        by (simp add: auth)
    qed
  qed
qed

lemma registry_socket_disconnect: "registry_inv s \<Longrightarrow> registry_inv (socket_disconnect sid s)"
  by (simp add: registry_inv_def socket_disconnect_def)

lemma registry_on_disconnect:
  assumes "registry_inv s" "map_of (socketAuth s) sid = Some (uid, uname)"
  shows "registry_inv (fst (on_disconnect sid uid uname dbOk s))"
proof (cases dbOk)
  case False
  with assms(1) show ?thesis by (simp add: on_disconnect_def)
next
  case True
  let ?s' = "fst (on_disconnect sid uid uname dbOk s)"
  have eqs: "userSockets ?s' = AList.delete uid (userSockets s)"
    "connectedUsers ?s' = AList.delete sid (connectedUsers s)"
    "socketAuth ?s' = socketAuth s"
    using True by (simp_all add: on_disconnect_def Let_def)
  show ?thesis
  proof (rule registry_invI)
    fix u t assume a: "map_of (userSockets ?s') u = Some t"
    then have u: "u \<noteq> uid" and old: "map_of (userSockets s) u = Some t"
      by (auto simp: eqs delete_conv' split: if_splits)
    from registry_invD1[OF assms(1) old] obtain ui where
      ui: "map_of (connectedUsers s) t = Some ui" "userId ui = u" by blast
    from registry_invD2[OF assms(1) ui(1)] ui(2) u assms(2) have "t \<noteq> sid" by auto
    with ui show "\<exists>ui. map_of (connectedUsers ?s') t = Some ui \<and> userId ui = u"
      by (simp add: eqs delete_conv')
  next
    fix t ui assume "map_of (connectedUsers ?s') t = Some ui"
    then have "map_of (connectedUsers s) t = Some ui"
      by (auto simp: eqs delete_conv' split: if_splits)
    from registry_invD2[OF assms(1) this]
    show "\<exists>n. map_of (socketAuth ?s') t = Some (userId ui, n)" by (simp add: eqs)
  qed
qed

lemma socketAuth_socket_disconnect [simp]:
  "socketAuth (socket_disconnect sid s) = socketAuth s"
  by (simp add: socket_disconnect_def)

lemma registry_step: "registry_inv s \<Longrightarrow> registry_inv (fst (step e s))"
  by (cases e)
     (auto simp: registry_dispatch registry_on_connection registry_on_disconnect
        registry_socket_disconnect Let_def split: option.splits)

lemma registry_run: "registry_inv s \<Longrightarrow> registry_inv (run s evs)"
  by (induction evs arbitrary: s) (simp_all add: registry_step)


subsection \<open>Edit, delete and react are stubbed out\<close>

lemma stubbed_dispatch:
  assumes "ev = MessageEdit d \<or> ev = MessageDelete d \<or> ev = MessageReact d"
  shows "fst (dispatch ev sid uid uname s) = s"
    and "\<forall>e\<in>set (snd (dispatch ev sid uid uname s)). fst e = sid \<and> fst (snd e) = ''error''"
    and "\<not> nullish d \<longrightarrow> snd (dispatch ev sid uid uname s) = []"
  using assms
  by (auto simp: on_message_edit_def on_message_delete_def on_message_react_def
      socket_emit_def split: if_splits)

text \<open>
  C8.  A \<^verbatim>\<open>message:edit\<close>, \<^verbatim>\<open>message:delete\<close> or \<^verbatim>\<open>message:react\<close> event leaves the
  whole hub state as it was (the two Maps and the room memberships among it), and
  nothing is fanned out: whatever is emitted is an \<^verbatim>\<open>error\<close> event addressed to the
  sending socket (the answer to a payload that is \<^verbatim>\<open>undefined\<close> or \<^verbatim>\<open>null\<close>), and with
  a payload object nothing is emitted at all.
\<close>

theorem edit_delete_react_no_fanout:
  assumes "ev = MessageEdit d \<or> ev = MessageDelete d \<or> ev = MessageReact d"
  shows "fst (step (Receive sid ev) s) = s \<and>
         (\<forall>e\<in>set (snd (step (Receive sid ev) s)). fst e = sid \<and> fst (snd e) = ''error'') \<and>
         (\<not> nullish d \<longrightarrow> snd (step (Receive sid ev) s) = [])"
proof (cases "sid \<in> set (sockets s) \<and> sid \<in> set (listening s)")
  case False
  then show ?thesis by auto
next
  case True
  show ?thesis
  proof (cases "map_of (socketAuth s) sid")
    case None
    with True show ?thesis by simp
  next
    case (Some a)
    obtain uid uname where a: "a = (uid, uname)" by (cases a)
    have st: "step (Receive sid ev) s = dispatch ev sid uid uname s"
      using True Some a by simp
    from stubbed_dispatch[OF assms, of sid uid uname s] st show ?thesis by simp
  qed
qed

theorem edit_delete_react_no_fanout_witness:
  "fst (step (Receive ''s1'' (MessageEdit (JObj [(''messageId'', JStr ''m1''), (''content'', JStr ''x'')])))
          (run hub0 two_in_room1)) = run hub0 two_in_room1 \<and>
   snd (step (Receive ''s1'' (MessageEdit (JObj [(''messageId'', JStr ''m1''), (''content'', JStr ''x'')])))
          (run hub0 two_in_room1)) = []"
  using edit_delete_react_no_fanout
    [of "MessageEdit (JObj [(''messageId'', JStr ''m1''), (''content'', JStr ''x'')])"
        "JObj [(''messageId'', JStr ''m1''), (''content'', JStr ''x'')]" "''s1''"
        "run hub0 two_in_room1"]
  by (simp add: nullish_def)

subsection \<open>The index never dangles\<close>

lemma index_keys_step:
  "distinct (map fst (userSockets s)) \<Longrightarrow> distinct (map fst (userSockets (fst (step e s))))"
  by (cases e)
     (auto simp: dispatch_frame on_connection_def on_disconnect_def socket_connect_def
        socket_join_def socket_disconnect_def Let_def distinct_update distinct_delete
        split: option.splits)

lemma index_keys_run:
  "distinct (map fst (userSockets s)) \<Longrightarrow> distinct (map fst (userSockets (run s evs)))"
  by (induction evs arbitrary: s) (simp_all add: index_keys_step)

text \<open>
  C2.  After any sequence of connects, client events and disconnects (any users, any
  interleaving, the same user connecting twice, the store failing or not), every entry
  of \<^verbatim>\<open>userSockets\<close> names a socket id that is a key of \<^verbatim>\<open>connectedUsers\<close>.
\<close>

theorem index_never_dangling:
  "\<forall>(u, t) \<in> set (userSockets (run hub0 evs)). t \<in> fst ` set (connectedUsers (run hub0 evs))"
proof clarify
  fix u t assume "(u, t) \<in> set (userSockets (run hub0 evs))"
  moreover have "distinct (map fst (userSockets (run hub0 evs)))"
    by (rule index_keys_run) (simp add: hub0_def)
  ultimately have "map_of (userSockets (run hub0 evs)) u = Some t" by simp
  from registry_invD1[OF registry_run[OF registry_inv0] this]
  show "t \<in> fst ` set (connectedUsers (run hub0 evs))"
    by (metis map_of_eq_None_iff option.distinct(1))
qed

lemma twice_A_state:
  "userSockets (run hub0 twice_A) = [(''A'', ''s2'')]"
  "map fst (connectedUsers (run hub0 twice_A)) = [''s1'', ''s2'']"
  by (simp_all add: twice_A_def hub0_def valid_socket_id_def socket_connect_def
      on_connection_def socket_join_def Let_def)

theorem index_never_dangling_witness:
  "userSockets (run hub0 twice_A) = [(''A'', ''s2'')] \<and>
   ''s2'' \<in> fst ` set (connectedUsers (run hub0 twice_A))"
  using index_never_dangling[of twice_A] by (simp add: twice_A_state(1))

subsection \<open>A message reaches the room, and only the room\<close>

lemma io_to_emit_iff:
  "(t, ev, p) \<in> set (io_to_emit s r ev' d) \<longleftrightarrow>
     t \<in> set (sockets s) \<and> (r, t) \<in> set (rooms s) \<and> ev = ev' \<and> p = d"
  by (auto simp: io_to_emit_def room_members_def)

lemma gone_step: "gone t s \<Longrightarrow> gone t (fst (step e s))"
  by (cases e)
     (auto simp: gone_def dispatch_frame on_connection_def on_disconnect_def
        socket_connect_def socket_join_def socket_disconnect_def Let_def
        split: option.splits)

lemma gone_run: "gone t s \<Longrightarrow> gone t (run s evs)"
  by (induction evs arbitrary: s) (simp_all add: gone_step)

lemma gone_after_disconnect:
  assumes "wf_hub s" "t \<in> set (sockets s)"
  shows "gone t (fst (step (Disconnect t b) s))"
proof -
  from assms have "map_of (socketAuth s) t \<noteq> None"
    by (metis map_of_None_notin subsetD wf_hub_def)
  with assms(2) show ?thesis
    by (auto simp: gone_def on_disconnect_def socket_disconnect_def Let_def
        split: option.splits)
qed

lemma run_append: "run s (xs @ ys) = run (run s xs) ys"
  by (induction xs arbitrary: s) simp_all

lemma disconnected_stays_out:
  assumes "t \<in> set (sockets (run hub0 evs1))"
  shows "t \<notin> set (sockets (run hub0 (evs1 @ Disconnect t b # evs2)))"
proof -
  have "gone t (fst (step (Disconnect t b) (run hub0 evs1)))"
    using wf_run[OF wf_hub0] assms by (rule gone_after_disconnect)
  then have "gone t (run (fst (step (Disconnect t b) (run hub0 evs1))) evs2)"
    by (rule gone_run)
  then show ?thesis by (simp add: run_append gone_def)
qed

lemma step_message_send:
  assumes "sid \<in> set (sockets s)" "sid \<in> set (listening s)"
    "map_of (socketAuth s) sid = Some (uid, uname)"
  shows "step (Receive sid (MessageSend data)) s = on_message_send sid uid uname data s"
  using assms by simp

lemmas run_defs =
  valid_socket_id_def socket_connect_def on_connection_def socket_join_def
  socket_leave_def socket_disconnect_def on_disconnect_def on_chat_join_def nullish_def
  room1_def Let_def

lemma two_in_room1_state:
  "run hub0 two_in_room1 =
     \<lparr>connectedUsers =
        [(''s1'', \<lparr>userId = ''A'', username = ''alice'', socketId = ''s1'', status = JStr ''online''\<rparr>),
         (''s2'', \<lparr>userId = ''B'', username = ''bob'', socketId = ''s2'', status = JStr ''online''\<rparr>)],
      userSockets = [(''A'', ''s1''), (''B'', ''s2'')],
      sockets = [''s1'', ''s2''],
      rooms = [(''chat:room1'', ''s2''), (''chat:room1'', ''s1''), (''user:B'', ''s2''),
               (''s2'', ''s2''), (''user:A'', ''s1''), (''s1'', ''s1'')],
      socketAuth = [(''s1'', ''A'', ''alice''), (''s2'', ''B'', ''bob'')],
      listening = [''s2'', ''s1'']\<rparr>"
  by (simp add: two_in_room1_def hub0_def run_defs)

lemma bob_left_state:
  "run hub0 (two_in_room1 @ [Disconnect ''s2'' True]) =
     \<lparr>connectedUsers =
        [(''s1'', \<lparr>userId = ''A'', username = ''alice'', socketId = ''s1'', status = JStr ''online''\<rparr>)],
      userSockets = [(''A'', ''s1'')],
      sockets = [''s1''],
      rooms = [(''chat:room1'', ''s1''), (''user:A'', ''s1''), (''s1'', ''s1'')],
      socketAuth = [(''s1'', ''A'', ''alice''), (''s2'', ''B'', ''bob'')],
      listening = [''s2'', ''s1'']\<rparr>"
  by (simp add: run_append two_in_room1_state run_defs)

text \<open>
  C1.  A \<^verbatim>\<open>message:send\<close> carrying the room identifier \<open>R\<close>, from a connected socket
  with listeners: a socket is written to exactly when it is connected and in the room
  \<^verbatim>\<open>chat:R\<close>, the sender's own socket like any other, and what it gets is
  \<^verbatim>\<open>message:new\<close> with the message object.  A socket that was connected and has
  disconnected earlier in the run gets nothing.
\<close>

theorem message_send_reaches_room:
  assumes "sid \<in> set (sockets s)" "sid \<in> set (listening s)"
    and "map_of (socketAuth s) sid = Some (uid, uname)"
    and "get_prop data ''chatId'' = JStr R"
  shows "(\<forall>t ev p. (t, ev, p) \<in> set (snd (step (Receive sid (MessageSend data)) s)) \<longleftrightarrow>
            t \<in> set (sockets s) \<and> (''chat:'' @ R, t) \<in> set (rooms s) \<and>
            ev = ''message:new'' \<and> p = new_message uid uname data) \<and>
         (\<forall>t evs1 b evs2.
            s = run hub0 (evs1 @ Disconnect t b # evs2) \<and> t \<in> set (sockets (run hub0 evs1)) \<longrightarrow>
            (\<forall>ev p. (t, ev, p) \<notin> set (snd (step (Receive sid (MessageSend data)) s))))"
proof -
  define ems where "ems = snd (step (Receive sid (MessageSend data)) s)"
  have nn: "\<not> nullish data" using assms(4) by (auto simp: nullish_def)
  have em: "ems = io_to_emit s (''chat:'' @ R) ''message:new'' (new_message uid uname data)"
    using assms nn by (simp add: ems_def on_message_send_def)
  have a: "\<forall>t ev p. (t, ev, p) \<in> set ems \<longleftrightarrow>
            t \<in> set (sockets s) \<and> (''chat:'' @ R, t) \<in> set (rooms s) \<and>
            ev = ''message:new'' \<and> p = new_message uid uname data"
    unfolding em by (simp add: io_to_emit_iff)
  have b: "\<forall>t evs1 b evs2.
            s = run hub0 (evs1 @ Disconnect t b # evs2) \<and> t \<in> set (sockets (run hub0 evs1)) \<longrightarrow>
            (\<forall>ev p. (t, ev, p) \<notin> set ems)"
  proof (intro allI impI)
    fix t evs1 b evs2 ev p
    assume "s = run hub0 (evs1 @ Disconnect t b # evs2) \<and> t \<in> set (sockets (run hub0 evs1))"
    with disconnected_stays_out[of t evs1 b evs2] have "t \<notin> set (sockets s)" by simp
    then show "(t, ev, p) \<notin> set ems" by (simp add: a)
  qed
  from a b show ?thesis unfolding ems_def by (rule conjI)
qed

theorem message_send_reaches_room_witness:
  "(''s1'', ''message:new'', new_message ''A'' ''alice'' hi)
     \<in> set (snd (step (Receive ''s1'' (MessageSend hi)) (run hub0 two_in_room1))) \<and>
   (''s2'', ''message:new'', new_message ''A'' ''alice'' hi)
     \<in> set (snd (step (Receive ''s1'' (MessageSend hi)) (run hub0 two_in_room1))) \<and>
   (''s1'', ''message:new'', new_message ''A'' ''alice'' hi)
     \<in> set (snd (step (Receive ''s1'' (MessageSend hi))
                  (run hub0 (two_in_room1 @ [Disconnect ''s2'' True])))) \<and>
   (\<forall>ev p. (''s2'', ev, p)
     \<notin> set (snd (step (Receive ''s1'' (MessageSend hi))
                  (run hub0 (two_in_room1 @ [Disconnect ''s2'' True])))))"
proof -
  have c: "get_prop hi ''chatId'' = JStr ''room1''" by (simp add: hi_def)
  have before: "''s1'' \<in> set (sockets (run hub0 two_in_room1))"
    "''s1'' \<in> set (listening (run hub0 two_in_room1))"
    "map_of (socketAuth (run hub0 two_in_room1)) ''s1'' = Some (''A'', ''alice'')"
    "''s2'' \<in> set (sockets (run hub0 two_in_room1))"
    "(''chat:'' @ ''room1'', ''s1'') \<in> set (rooms (run hub0 two_in_room1))"
    "(''chat:'' @ ''room1'', ''s2'') \<in> set (rooms (run hub0 two_in_room1))"
    by (simp_all add: two_in_room1_state)
  have after: "''s1'' \<in> set (sockets (run hub0 (two_in_room1 @ [Disconnect ''s2'' True])))"
    "''s1'' \<in> set (listening (run hub0 (two_in_room1 @ [Disconnect ''s2'' True])))"
    "map_of (socketAuth (run hub0 (two_in_room1 @ [Disconnect ''s2'' True]))) ''s1'' =
       Some (''A'', ''alice'')"
    "(''chat:'' @ ''room1'', ''s1'') \<in> set (rooms (run hub0 (two_in_room1 @ [Disconnect ''s2'' True])))"
    by (simp_all add: bob_left_state)
  note t1 = message_send_reaches_room[OF before(1,2,3) c]
  note t2 = message_send_reaches_room[OF after(1,2,3) c]
  from t1 have all1:
    "\<forall>t ev p. (t, ev, p) \<in> set (snd (step (Receive ''s1'' (MessageSend hi)) (run hub0 two_in_room1))) \<longleftrightarrow>
       t \<in> set (sockets (run hub0 two_in_room1)) \<and>
       (''chat:'' @ ''room1'', t) \<in> set (rooms (run hub0 two_in_room1)) \<and>
       ev = ''message:new'' \<and> p = new_message ''A'' ''alice'' hi"
    by (rule conjunct1)
  have f1: "(''s1'', ''message:new'', new_message ''A'' ''alice'' hi)
       \<in> set (snd (step (Receive ''s1'' (MessageSend hi)) (run hub0 two_in_room1)))"
    using all1[rule_format, of "''s1''" "''message:new''" "new_message ''A'' ''alice'' hi"]
      before(1,5) by simp
  have f2: "(''s2'', ''message:new'', new_message ''A'' ''alice'' hi)
       \<in> set (snd (step (Receive ''s1'' (MessageSend hi)) (run hub0 two_in_room1)))"
    using all1[rule_format, of "''s2''" "''message:new''" "new_message ''A'' ''alice'' hi"]
      before(4,6) by simp
  from t2 have all2:
    "\<forall>t ev p. (t, ev, p) \<in> set (snd (step (Receive ''s1'' (MessageSend hi))
                    (run hub0 (two_in_room1 @ [Disconnect ''s2'' True])))) \<longleftrightarrow>
       t \<in> set (sockets (run hub0 (two_in_room1 @ [Disconnect ''s2'' True]))) \<and>
       (''chat:'' @ ''room1'', t) \<in> set (rooms (run hub0 (two_in_room1 @ [Disconnect ''s2'' True]))) \<and>
       ev = ''message:new'' \<and> p = new_message ''A'' ''alice'' hi"
    by (rule conjunct1)
  have f3: "(''s1'', ''message:new'', new_message ''A'' ''alice'' hi)
       \<in> set (snd (step (Receive ''s1'' (MessageSend hi))
                    (run hub0 (two_in_room1 @ [Disconnect ''s2'' True]))))"
    using all2[rule_format, of "''s1''" "''message:new''" "new_message ''A'' ''alice'' hi"]
      after(1,4) by simp
  from t2 have gone2:
    "\<forall>t evs1 b evs2.
        run hub0 (two_in_room1 @ [Disconnect ''s2'' True]) = run hub0 (evs1 @ Disconnect t b # evs2) \<and>
        t \<in> set (sockets (run hub0 evs1)) \<longrightarrow>
        (\<forall>ev p. (t, ev, p) \<notin> set (snd (step (Receive ''s1'' (MessageSend hi))
                    (run hub0 (two_in_room1 @ [Disconnect ''s2'' True])))))"
    by (rule conjunct2)
  have f4: "\<forall>ev p. (''s2'', ev, p)
       \<notin> set (snd (step (Receive ''s1'' (MessageSend hi))
                    (run hub0 (two_in_room1 @ [Disconnect ''s2'' True]))))"
    using gone2[THEN spec[where x="''s2''"], THEN spec[where x=two_in_room1],
        THEN spec[where x=True], THEN spec[where x="[]"]]
      before(4) by (simp only: simp_thms)
  show ?thesis by (rule conjI[OF f1 conjI[OF f2 conjI[OF f3 f4]]])
qed

subsection \<open>Signaling is relayed to the socket the index names\<close>

lemma filter_eq_single:
  "distinct xs \<Longrightarrow> filter (\<lambda>t. t = T) xs = (if T \<in> set xs then [T] else [])"
  by (induction xs) auto

lemma own_room_members:
  assumes "wf_hub s" "valid_socket_id T"
  shows "room_members s T = (if T \<in> set (sockets s) then [T] else [])"
proof -
  have "(T, t) \<in> set (rooms s) \<longleftrightarrow> t = T" if "t \<in> set (sockets s)" for t
    using assms that by (fastforce simp: wf_hub_def valid_socket_id_def)
  then have "room_members s T = filter (\<lambda>t. t = T) (sockets s)"
    unfolding room_members_def by (intro filter_cong) auto
  with assms(1) show ?thesis by (simp add: filter_eq_single wf_hub_def)
qed

lemma index_entry_valid:
  assumes "wf_hub s" "registry_inv s" "map_of (userSockets s) u = Some T"
  shows "valid_socket_id T"
proof -
  from registry_invD1[OF assms(2,3)] obtain ui where "map_of (connectedUsers s) T = Some ui"
    by blast
  from registry_invD2[OF assms(2) this] obtain n where "map_of (socketAuth s) T = Some (userId ui, n)"
    by blast
  then have "T \<in> fst ` set (socketAuth s)" by (metis map_of_None_notin option.distinct(1) map_of_eq_None_iff)
  with assms(1) show ?thesis by (auto simp: wf_hub_def)
qed

lemma lookup_target_valid:
  assumes "wf_hub s" "registry_inv s" "lookup_target s v = Some T"
  shows "valid_socket_id T"
  using assms index_entry_valid
  by (cases v) (auto simp: lookup_target_def)

lemma on_webrtc_reachable:
  assumes "\<not> nullish data"
  shows "on_webrtc ev field sid uid uname data (run hub0 evs) =
           Some (run hub0 evs,
             case lookup_target (run hub0 evs) (get_prop data ''targetUserId'') of
               None \<Rightarrow> []
             | Some T \<Rightarrow>
                 if T \<in> set (sockets (run hub0 evs))
                 then [(T, ev, JObj [(''callId'', get_prop data ''callId''),
                                     (field, get_prop data field),
                                     (''fromUserId'', JStr uid), (''fromUsername'', JStr uname)])]
                 else [])"
proof -
  let ?s = "run hub0 evs"
  have wf: "wf_hub ?s" by (rule wf_run[OF wf_hub0])
  have reg: "registry_inv ?s" by (rule registry_run[OF registry_inv0])
  show ?thesis
  proof (cases "lookup_target ?s (get_prop data ''targetUserId'')")
    case None
    with assms show ?thesis by (simp add: on_webrtc_def truthy_id_def)
  next
    case (Some T)
    have v: "valid_socket_id T" by (rule lookup_target_valid[OF wf reg Some])
    then have "truthy_id (Some T) = Some T" by (simp add: truthy_id_def valid_socket_id_def)
    with assms Some show ?thesis
      by (simp add: on_webrtc_def io_to_emit_def own_room_members[OF wf v])
  qed
qed

text \<open>
  C3 (as amended).  A \<^verbatim>\<open>webrtc:offer\<close>, \<^verbatim>\<open>webrtc:answer\<close> or \<^verbatim>\<open>webrtc:ice-candidate\<close>
  event naming the target user \<open>U\<close>, in any reachable state.  When \<open>U\<close> has no entry in
  \<^verbatim>\<open>userSockets\<close> nothing is emitted, to the sender neither.  When the entry names the
  socket \<open>T\<close>, the event goes to \<open>T\<close> and to no other socket, once, with the call id,
  the relayed field and the sender's user id and username, provided \<open>T\<close> is still
  connected; when \<open>T\<close> is not, nothing is emitted.  The hub state is unchanged.
\<close>

theorem signaling_relay:
  assumes "(h, ev, field) = (on_webrtc_offer, ''webrtc:offer'', ''offer'') \<or>
           (h, ev, field) = (on_webrtc_answer, ''webrtc:answer'', ''answer'') \<or>
           (h, ev, field) = (on_webrtc_ice_candidate, ''webrtc:ice-candidate'', ''candidate'')"
    and "get_prop data ''targetUserId'' = JStr U"
  shows "h sid uid uname data (run hub0 evs) =
           Some (run hub0 evs,
             case getUserSocketId (run hub0 evs) U of
               None \<Rightarrow> []
             | Some T \<Rightarrow>
                 if T \<in> set (sockets (run hub0 evs))
                 then [(T, ev, JObj [(''callId'', get_prop data ''callId''),
                                     (field, get_prop data field),
                                     (''fromUserId'', JStr uid), (''fromUsername'', JStr uname)])]
                 else [])"
proof -
  have nn: "\<not> nullish data" using assms(2) by (auto simp: nullish_def)
  have h: "h = on_webrtc ev field"
    using assms(1)
    by (auto simp: on_webrtc_offer_def on_webrtc_answer_def on_webrtc_ice_candidate_def)
  have l: "lookup_target (run hub0 evs) (get_prop data ''targetUserId'') =
      getUserSocketId (run hub0 evs) U"
    by (simp add: assms(2) lookup_target_def getUserSocketId_def)
  show ?thesis unfolding h using on_webrtc_reachable[OF nn, of ev field sid uid uname evs]
    by (simp only: l)
qed

lemma stale_B_state:
  "run hub0 stale_B =
     \<lparr>connectedUsers =
        [(''s1'', \<lparr>userId = ''A'', username = ''alice'', socketId = ''s1'', status = JStr ''online''\<rparr>),
         (''s2'', \<lparr>userId = ''B'', username = ''bob'', socketId = ''s2'', status = JStr ''online''\<rparr>)],
      userSockets = [(''A'', ''s1''), (''B'', ''s2'')],
      sockets = [''s1''],
      rooms = [(''chat:room1'', ''s1''), (''user:A'', ''s1''), (''s1'', ''s1'')],
      socketAuth = [(''s1'', ''A'', ''alice''), (''s2'', ''B'', ''bob'')],
      listening = [''s2'', ''s1'']\<rparr>"
  by (simp add: stale_B_def run_append two_in_room1_state run_defs)

theorem signaling_relay_witness:
  "on_webrtc_offer ''s1'' ''A'' ''alice'' offer_to_B (run hub0 two_in_room1) =
     Some (run hub0 two_in_room1,
           [(''s2'', ''webrtc:offer'',
             JObj [(''callId'', JStr ''c1''), (''offer'', JStr ''sdp''),
                   (''fromUserId'', JStr ''A''), (''fromUsername'', JStr ''alice'')])])"
proof -
  have t: "get_prop offer_to_B ''targetUserId'' = JStr ''B''" by (simp add: offer_to_B_def)
  have g: "getUserSocketId (run hub0 two_in_room1) ''B'' = Some ''s2''"
    "''s2'' \<in> set (sockets (run hub0 two_in_room1))"
    "get_prop offer_to_B ''callId'' = JStr ''c1''" "get_prop offer_to_B ''offer'' = JStr ''sdp''"
    by (simp_all add: two_in_room1_state getUserSocketId_def offer_to_B_def)
  from signaling_relay[OF _ t, of on_webrtc_offer "''webrtc:offer''" "''offer''"
      "''s1''" "''A''" "''alice''" two_in_room1]
  show ?thesis by (simp add: g)
qed

text \<open>
  The claim as written, that the session named by the entry receives the event whenever
  \<open>U\<close> has an entry, fails on an entry that has outlived its connection: Bob's socket
  has left, the \<^verbatim>\<open>catch\<close> of the \<^verbatim>\<open>disconnect\<close> listener skipped both \<^verbatim>\<open>delete\<close> calls,
  and Alice's offer reaches nobody.
\<close>

theorem signaling_stale_entry_counterexample:
  "isUserOnline (run hub0 stale_B) ''B'' \<and>
   getUserSocketId (run hub0 stale_B) ''B'' = Some ''s2'' \<and>
   step (Receive ''s1'' (WebrtcOffer offer_to_B)) (run hub0 stale_B) = (run hub0 stale_B, [])"
  by (simp add: stale_B_state isUserOnline_def getUserSocketId_def offer_to_B_def
      on_webrtc_offer_def on_webrtc_def or_thrown_def nullish_def lookup_target_def
      truthy_id_def io_to_emit_def room_members_def)

subsection \<open>Call transitions go to every other socket\<close>

lemma broadcast_iff:
  "(t, e, p) \<in> set (socket_broadcast_emit s sid ev d) \<longleftrightarrow>
     t \<in> set (sockets s) \<and> t \<noteq> sid \<and> e = ev \<and> p = d"
  by (auto simp: socket_broadcast_emit_def)

text \<open>
  C7 (as amended).  A \<^verbatim>\<open>call:accept\<close>, \<^verbatim>\<open>call:decline\<close> or \<^verbatim>\<open>call:end\<close> event leaves the
  hub state unchanged.  With a payload other than \<^verbatim>\<open>undefined\<close> and \<^verbatim>\<open>null\<close>,
  \<^verbatim>\<open>call:accepted\<close>, \<^verbatim>\<open>call:declined\<close> or \<^verbatim>\<open>call:ended\<close> is written to every connected
  socket other than the sender's own, whether or not it has anything to do with the
  call, and to nothing else.  With a payload that is \<^verbatim>\<open>undefined\<close> or \<^verbatim>\<open>null\<close> no call
  event is emitted: at most the \<^verbatim>\<open>error\<close> event with which \<^verbatim>\<open>call:accept\<close> answers its
  sender.
\<close>

theorem call_events_broadcast:
  assumes "(h, ev, who) = (on_call_accept, ''call:accepted'', ''accepted'') \<or>
           (h, ev, who) = (on_call_decline, ''call:declined'', ''declined'') \<or>
           (h, ev, who) = (on_call_end, ''call:ended'', ''ended'')"
  shows "fst (h sid uid uname data s) = s \<and>
         (\<not> nullish data \<longrightarrow>
            (\<forall>t e p. (t, e, p) \<in> set (snd (h sid uid uname data s)) \<longleftrightarrow>
               t \<in> set (sockets s) \<and> t \<noteq> sid \<and> e = ev \<and>
               p = JObj [(''callId'', get_prop data ''callId''), (who @ ''By'', JStr uid),
                         (who @ ''ByUsername'', JStr uname)])) \<and>
         (nullish data \<longrightarrow>
            set (snd (h sid uid uname data s))
              \<subseteq> {(sid, ''error'', error_event ''Failed to accept call'')})"
  using assms
  by (auto simp: on_call_accept_def on_call_decline_def on_call_end_def broadcast_iff
      socket_emit_def split: if_splits)

lemma with_carol_state:
  "run hub0 with_carol =
     \<lparr>connectedUsers =
        [(''s1'', \<lparr>userId = ''A'', username = ''alice'', socketId = ''s1'', status = JStr ''online''\<rparr>),
         (''s2'', \<lparr>userId = ''B'', username = ''bob'', socketId = ''s2'', status = JStr ''online''\<rparr>),
         (''s3'', \<lparr>userId = ''C'', username = ''carol'', socketId = ''s3'', status = JStr ''online''\<rparr>)],
      userSockets = [(''A'', ''s1''), (''B'', ''s2''), (''C'', ''s3'')],
      sockets = [''s1'', ''s2'', ''s3''],
      rooms = [(''user:C'', ''s3''), (''s3'', ''s3''), (''chat:room1'', ''s2''),
               (''chat:room1'', ''s1''), (''user:B'', ''s2''),
               (''s2'', ''s2''), (''user:A'', ''s1''), (''s1'', ''s1'')],
      socketAuth = [(''s1'', ''A'', ''alice''), (''s2'', ''B'', ''bob''), (''s3'', ''C'', ''carol'')],
      listening = [''s3'', ''s2'', ''s1'']\<rparr>"
  by (simp add: with_carol_def run_append two_in_room1_state run_defs)

theorem call_events_broadcast_witness:
  "snd (on_call_accept ''s2'' ''B'' ''bob'' call_c1 (run hub0 with_carol)) =
     [(''s1'', ''call:accepted'',
       JObj [(''callId'', JStr ''c1''), (''acceptedBy'', JStr ''B''), (''acceptedByUsername'', JStr ''bob'')]),
      (''s3'', ''call:accepted'',
       JObj [(''callId'', JStr ''c1''), (''acceptedBy'', JStr ''B''), (''acceptedByUsername'', JStr ''bob'')])] \<and>
   fst (on_call_accept ''s2'' ''B'' ''bob'' call_c1 (run hub0 with_carol)) = run hub0 with_carol"
proof -
  have nn: "\<not> nullish call_c1" by (simp add: call_c1_def nullish_def)
  from call_events_broadcast[of on_call_accept "''call:accepted''" "''accepted''"
      "''s2''" "''B''" "''bob''" call_c1 "run hub0 with_carol"]
  have "fst (on_call_accept ''s2'' ''B'' ''bob'' call_c1 (run hub0 with_carol)) = run hub0 with_carol"
    by simp
  moreover have "snd (on_call_accept ''s2'' ''B'' ''bob'' call_c1 (run hub0 with_carol)) =
     [(''s1'', ''call:accepted'',
       JObj [(''callId'', JStr ''c1''), (''acceptedBy'', JStr ''B''), (''acceptedByUsername'', JStr ''bob'')]),
      (''s3'', ''call:accepted'',
       JObj [(''callId'', JStr ''c1''), (''acceptedBy'', JStr ''B''), (''acceptedByUsername'', JStr ''bob'')])]"
    by (simp add: on_call_accept_def nullish_def socket_broadcast_emit_def with_carol_state call_c1_def)
  ultimately show ?thesis by simp
qed

text \<open>
  The claim as written has all connected sessions receive the event.  Bob's own socket
  is connected and is not written to: \<^verbatim>\<open>socket.broadcast.emit\<close> leaves the sender out.
  And a \<^verbatim>\<open>call:accept\<close> without a payload gives no \<^verbatim>\<open>call:accepted\<close> at all.
\<close>

theorem call_accept_skips_sender_counterexample:
  "''s2'' \<in> set (sockets (run hub0 with_carol)) \<and>
   set (map fst (snd (step (Receive ''s2'' (CallAccept call_c1)) (run hub0 with_carol)))) = {''s1'', ''s3''} \<and>
   set (map fst (snd (step (Receive ''s2'' (CallDecline call_c1)) (run hub0 with_carol)))) = {''s1'', ''s3''} \<and>
   set (map fst (snd (step (Receive ''s2'' (CallEnd call_c1)) (run hub0 with_carol)))) = {''s1'', ''s3''} \<and>
   snd (step (Receive ''s2'' (CallAccept JUndefined)) (run hub0 with_carol)) =
     [(''s2'', ''error'', JObj [(''message'', JStr ''Failed to accept call'')])]"
  by (simp add: with_carol_state on_call_accept_def on_call_decline_def on_call_end_def
      nullish_def socket_broadcast_emit_def socket_emit_def error_event_def call_c1_def)

subsection \<open>A status change is broadcast whether or not the socket is registered\<close>

text \<open>
  C6 (as amended).  A \<^verbatim>\<open>user:status\<close> event.  With a payload other than \<^verbatim>\<open>undefined\<close>
  and \<^verbatim>\<open>null\<close> and the store update succeeding: when the socket is not in
  \<^verbatim>\<open>connectedUsers\<close>, no state is changed; when it is, its entry gets the new status
  and nothing else changes; in both cases \<^verbatim>\<open>user:status_changed\<close>, carrying the user id
  and the new status, is written to every other connected socket.  Nothing else is
  emitted, but for a new status that cannot be converted to a string: then the sender,
  if connected, also gets an \<^verbatim>\<open>error\<close> event.  The prior status is in no output of the
  handler.  With a payload that is \<^verbatim>\<open>undefined\<close> or \<^verbatim>\<open>null\<close>, or the store update
  rejecting, the state is unchanged and the only emission is an \<^verbatim>\<open>error\<close> event to the
  sender.
\<close>

theorem status_change_effect:
  "(\<not> nullish data \<longrightarrow>
      (map_of (connectedUsers s) sid = None \<longrightarrow>
         fst (on_user_status sid uid data True s) = s) \<and>
      (\<forall>userInfo. map_of (connectedUsers s) sid = Some userInfo \<longrightarrow>
         fst (on_user_status sid uid data True s) =
           s\<lparr>connectedUsers :=
               AList.update sid (userInfo\<lparr>status := get_prop data ''status''\<rparr>) (connectedUsers s)\<rparr>) \<and>
      (\<forall>t e p. (t, e, p) \<in> set (snd (on_user_status sid uid data True s)) \<longleftrightarrow>
         t \<in> set (sockets s) \<and> t \<noteq> sid \<and> e = ''user:status_changed'' \<and>
           p = JObj [(''userId'', JStr uid), (''status'', get_prop data ''status'')] \<or>
         to_string (get_prop data ''status'') = None \<and> t \<in> set (sockets s) \<and> t = sid \<and>
           e = ''error'' \<and> p = error_event ''Failed to update status'')) \<and>
   (nullish data \<or> \<not> dbOk \<longrightarrow>
      fst (on_user_status sid uid data dbOk s) = s \<and>
      set (snd (on_user_status sid uid data dbOk s))
        \<subseteq> {(sid, ''error'', error_event ''Failed to update status'')})"
proof -
  show ?thesis
    by (cases "to_string (get_prop data ''status'')"; cases "map_of (connectedUsers s) sid")
       (auto simp: on_user_status_def Let_def broadcast_iff socket_emit_def split: if_splits)
qed

lemma alice_left_state:
  "run hub0 alice_left =
     \<lparr>connectedUsers =
        [(''s2'', \<lparr>userId = ''B'', username = ''bob'', socketId = ''s2'', status = JStr ''online''\<rparr>)],
      userSockets = [(''B'', ''s2'')],
      sockets = [''s2''],
      rooms = [(''chat:room1'', ''s2''), (''user:B'', ''s2''), (''s2'', ''s2'')],
      socketAuth = [(''s1'', ''A'', ''alice''), (''s2'', ''B'', ''bob'')],
      listening = [''s2'', ''s1'']\<rparr>"
  by (simp add: alice_left_def run_append two_in_room1_state run_defs)

theorem status_change_effect_witness:
  "map_of (connectedUsers (fst (on_user_status ''s1'' ''A'' away True (run hub0 two_in_room1)))) ''s1'' =
     Some \<lparr>userId = ''A'', username = ''alice'', socketId = ''s1'', status = JStr ''away''\<rparr> \<and>
   snd (on_user_status ''s1'' ''A'' away True (run hub0 two_in_room1)) =
     [(''s2'', ''user:status_changed'', JObj [(''userId'', JStr ''A''), (''status'', JStr ''away'')])] \<and>
   fst (on_user_status ''s1'' ''A'' away True (run hub0 alice_left)) = run hub0 alice_left"
proof -
  have nn: "\<not> nullish away" by (simp add: away_def nullish_def)
  have a: "map_of (connectedUsers (run hub0 alice_left)) ''s1'' = None"
    by (simp add: alice_left_state)
  from status_change_effect[where data = away and s = "run hub0 alice_left" and sid = "''s1''"
      and uid = "''A''"] nn a
  have "fst (on_user_status ''s1'' ''A'' away True (run hub0 alice_left)) = run hub0 alice_left"
    by blast
  moreover have
    "map_of (connectedUsers (fst (on_user_status ''s1'' ''A'' away True (run hub0 two_in_room1)))) ''s1'' =
       Some \<lparr>userId = ''A'', username = ''alice'', socketId = ''s1'', status = JStr ''away''\<rparr>"
    "snd (on_user_status ''s1'' ''A'' away True (run hub0 two_in_room1)) =
       [(''s2'', ''user:status_changed'', JObj [(''userId'', JStr ''A''), (''status'', JStr ''away'')])]"
    by (simp_all add: on_user_status_def nullish_def away_def two_in_room1_state Let_def
        socket_broadcast_emit_def)
  ultimately show ?thesis by simp
qed

text \<open>
  The claim as written has nothing broadcast when the connection is not in the
  registry.  The listener awaits the store (line 116) before it reads the registry, so
  it can resume after the \<^verbatim>\<open>disconnect\<close> listener of its own socket has removed the
  entry: Alice's socket is gone from the registry, and Bob is still told of her status.
  A registered socket whose store update rejects keeps its status: Bob gets the
  \<^verbatim>\<open>error\<close> event and the registry is as it was.  And a status that cannot be
  converted is stored and broadcast before the log line throws, so that Alice is told
  of a failure after the change was made.
\<close>

theorem status_unregistered_broadcast_counterexample:
  "map_of (connectedUsers (run hub0 alice_left)) ''s1'' = None \<and>
   on_user_status ''s1'' ''A'' away True (run hub0 alice_left) =
     (run hub0 alice_left,
      [(''s2'', ''user:status_changed'', JObj [(''userId'', JStr ''A''), (''status'', JStr ''away'')])]) \<and>
   step (Receive ''s2'' (UserStatus away False)) (run hub0 alice_left) =
     (run hub0 alice_left,
      [(''s2'', ''error'', JObj [(''message'', JStr ''Failed to update status'')])]) \<and>
   snd (step (Receive ''s1'' (UserStatus odd_status True)) (run hub0 two_in_room1)) =
     [(''s2'', ''user:status_changed'',
       JObj [(''userId'', JStr ''A''), (''status'', JObj [(''toString'', JStr ''x'')])]),
      (''s1'', ''error'', JObj [(''message'', JStr ''Failed to update status'')])]"
  by (simp add: alice_left_state two_in_room1_state on_user_status_def nullish_def away_def
      odd_status_def socket_broadcast_emit_def socket_emit_def error_event_def Let_def)

subsection \<open>The presence snapshot\<close>

lemma update_mem: "(k, v) \<in> set (AList.update k v al)"
  by (induction al) auto

lemma carol_arrives_state:
  "carol_arrives =
     \<lparr>connectedUsers =
        [(''s1'', \<lparr>userId = ''A'', username = ''alice'', socketId = ''s1'', status = JStr ''online''\<rparr>),
         (''s2'', \<lparr>userId = ''B'', username = ''bob'', socketId = ''s2'', status = JStr ''online''\<rparr>)],
      userSockets = [(''A'', ''s1''), (''B'', ''s2'')],
      sockets = [''s1'', ''s2'', ''s3''],
      rooms = [(''s3'', ''s3''), (''chat:room1'', ''s2''), (''chat:room1'', ''s1''),
               (''user:B'', ''s2''), (''s2'', ''s2''), (''user:A'', ''s1''), (''s1'', ''s1'')],
      socketAuth = [(''s1'', ''A'', ''alice''), (''s2'', ''B'', ''bob''), (''s3'', ''C'', ''carol'')],
      listening = [''s2'', ''s1'']\<rparr>"
  by (simp add: carol_arrives_def two_in_room1_state socket_connect_def)

lemma carol_closed_state:
  "carol_closed =
     \<lparr>connectedUsers =
        [(''s1'', \<lparr>userId = ''A'', username = ''alice'', socketId = ''s1'', status = JStr ''online''\<rparr>),
         (''s2'', \<lparr>userId = ''B'', username = ''bob'', socketId = ''s2'', status = JStr ''online''\<rparr>)],
      userSockets = [(''A'', ''s1''), (''B'', ''s2'')],
      sockets = [''s1'', ''s2''],
      rooms = [(''chat:room1'', ''s2''), (''chat:room1'', ''s1''),
               (''user:B'', ''s2''), (''s2'', ''s2''), (''user:A'', ''s1''), (''s1'', ''s1'')],
      socketAuth = [(''s1'', ''A'', ''alice''), (''s2'', ''B'', ''bob''), (''s3'', ''C'', ''carol'')],
      listening = [''s2'', ''s1'']\<rparr>"
  by (simp add: carol_closed_def carol_arrives_state socket_disconnect_def)

text \<open>
  C9 (as amended).  The connection handler of a socket resumes with the store update
  succeeded.  When the socket is still connected, exactly one of the emissions is
  \<^verbatim>\<open>users:online\<close>, it goes to that socket, and it lists the summaries of
  \<open>getConnectedUsers\<close> as the registry stands once the handler is done.  When the
  socket has closed in the meantime, no \<^verbatim>\<open>users:online\<close> is delivered.  In both cases
  the new session is in the registry.
\<close>

theorem presence_snapshot:
  "(sid \<in> set (sockets s) \<longrightarrow>
      filter (\<lambda>e. fst (snd e) = ''users:online'') (snd (on_connection sid uid uname True s)) =
        [(sid, ''users:online'',
          JArr (map online_summary (getConnectedUsers (fst (on_connection sid uid uname True s)))))]) \<and>
   (sid \<notin> set (sockets s) \<longrightarrow>
      filter (\<lambda>e. fst (snd e) = ''users:online'') (snd (on_connection sid uid uname True s)) = []) \<and>
   \<lparr>userId = uid, username = uname, socketId = sid, status = JStr ''online''\<rparr>
     \<in> set (getConnectedUsers (fst (on_connection sid uid uname True s)))"
proof -
  have "(sid, \<lparr>userId = uid, username = uname, socketId = sid, status = JStr ''online''\<rparr>)
      \<in> set (AList.update sid \<lparr>userId = uid, username = uname, socketId = sid, status = JStr ''online''\<rparr>
               (connectedUsers s))"
    by (rule update_mem)
  then have "\<lparr>userId = uid, username = uname, socketId = sid, status = JStr ''online''\<rparr>
      \<in> snd ` set (AList.update sid \<lparr>userId = uid, username = uname, socketId = sid, status = JStr ''online''\<rparr>
               (connectedUsers s))"
    by force
  then show ?thesis
    by (simp add: on_connection_def socket_join_def socket_emit_def
        socket_broadcast_emit_def getConnectedUsers_def Let_def filter_map o_def)
qed

theorem presence_snapshot_witness:
  "step (Connect ''s3'' ''C'' ''carol'' True) (run hub0 two_in_room1) =
     on_connection ''s3'' ''C'' ''carol'' True carol_arrives \<and>
   snd (on_connection ''s3'' ''C'' ''carol'' True carol_arrives) =
     [(''s1'', ''user:online'', JObj [(''userId'', JStr ''C''), (''username'', JStr ''carol''), (''status'', JStr ''online'')]),
      (''s2'', ''user:online'', JObj [(''userId'', JStr ''C''), (''username'', JStr ''carol''), (''status'', JStr ''online'')]),
      (''s3'', ''users:online'',
       JArr [JObj [(''userId'', JStr ''A''), (''username'', JStr ''alice''), (''status'', JStr ''online'')],
             JObj [(''userId'', JStr ''B''), (''username'', JStr ''bob''), (''status'', JStr ''online'')],
             JObj [(''userId'', JStr ''C''), (''username'', JStr ''carol''), (''status'', JStr ''online'')]])] \<and>
   filter (\<lambda>e. fst (snd e) = ''users:online'') (snd (on_connection ''s3'' ''C'' ''carol'' True carol_arrives)) =
     [(''s3'', ''users:online'',
       JArr (map online_summary
         (getConnectedUsers (fst (on_connection ''s3'' ''C'' ''carol'' True carol_arrives)))))]"
proof -
  have c: "''s3'' \<in> set (sockets carol_arrives)" by (simp add: carol_arrives_state)
  from presence_snapshot[of "''s3''" carol_arrives "''C''" "''carol''"] c
  have "filter (\<lambda>e. fst (snd e) = ''users:online'') (snd (on_connection ''s3'' ''C'' ''carol'' True carol_arrives)) =
     [(''s3'', ''users:online'',
       JArr (map online_summary
         (getConnectedUsers (fst (on_connection ''s3'' ''C'' ''carol'' True carol_arrives)))))]"
    by blast
  moreover have "step (Connect ''s3'' ''C'' ''carol'' True) (run hub0 two_in_room1) =
     on_connection ''s3'' ''C'' ''carol'' True carol_arrives"
    by (simp add: carol_arrives_def two_in_room1_state valid_socket_id_def)
  moreover have "snd (on_connection ''s3'' ''C'' ''carol'' True carol_arrives) =
     [(''s1'', ''user:online'', JObj [(''userId'', JStr ''C''), (''username'', JStr ''carol''), (''status'', JStr ''online'')]),
      (''s2'', ''user:online'', JObj [(''userId'', JStr ''C''), (''username'', JStr ''carol''), (''status'', JStr ''online'')]),
      (''s3'', ''users:online'',
       JArr [JObj [(''userId'', JStr ''A''), (''username'', JStr ''alice''), (''status'', JStr ''online'')],
             JObj [(''userId'', JStr ''B''), (''username'', JStr ''bob''), (''status'', JStr ''online'')],
             JObj [(''userId'', JStr ''C''), (''username'', JStr ''carol''), (''status'', JStr ''online'')]])]"
    by (simp add: carol_arrives_state on_connection_def socket_join_def Let_def socket_emit_def
        socket_broadcast_emit_def online_summary_def)
  ultimately show ?thesis by (intro conjI)
qed

text \<open>
  The claim as written covers every connection the middleware admitted.  When the store
  update of the connection handler rejects, the admitted socket gets
  \<^verbatim>\<open>Connection error\<close>, is disconnected, and gets no snapshot.  And when the socket
  closes while the handler awaits the store, the handler resumes on a closed socket:
  Carol is registered and announced to the others, her own \<^verbatim>\<open>users:online\<close> is dropped.
\<close>

theorem no_snapshot_when_store_fails_counterexample:
  "snd (step (Connect ''s3'' ''C'' ''carol'' False) (run hub0 two_in_room1)) =
     [(''s3'', ''error'', JObj [(''message'', JStr ''Connection error'')])] \<and>
   ''s3'' \<notin> set (sockets (fst (step (Connect ''s3'' ''C'' ''carol'' False) (run hub0 two_in_room1)))) \<and>
   snd (on_connection ''s3'' ''C'' ''carol'' True carol_closed) =
     [(''s1'', ''user:online'', JObj [(''userId'', JStr ''C''), (''username'', JStr ''carol''), (''status'', JStr ''online'')]),
      (''s2'', ''user:online'', JObj [(''userId'', JStr ''C''), (''username'', JStr ''carol''), (''status'', JStr ''online'')])] \<and>
   isUserOnline (fst (on_connection ''s3'' ''C'' ''carol'' True carol_closed)) ''C''"
  by (simp add: two_in_room1_state carol_closed_state run_defs socket_emit_def error_event_def
      socket_broadcast_emit_def isUserOnline_def)

subsection \<open>A disconnect clears the index entry of its user\<close>

text \<open>
  C10 (as amended).  A connected socket of user \<open>U\<close> disconnects and the store update
  of the listener succeeds: afterwards \<open>U\<close> has no index entry, whichever socket the
  entry named, so \<open>isUserOnline\<close> is false, \<open>getUserSocketId\<close> is \<^verbatim>\<open>undefined\<close> and
  \<open>sendToUser\<close> returns false and emits nothing; the registry entries of all other
  sockets, another socket of \<open>U\<close> among them, stay.
\<close>

theorem disconnect_clears_index:
  assumes "sid \<in> set (sockets s)" "sid \<in> set (listening s)"
    and "map_of (socketAuth s) sid = Some (U, uname)"
  shows "\<not> isUserOnline (fst (step (Disconnect sid True) s)) U \<and>
         getUserSocketId (fst (step (Disconnect sid True) s)) U = None \<and>
         sendToUser (fst (step (Disconnect sid True) s)) U ev d = (False, []) \<and>
         (\<forall>t. t \<noteq> sid \<longrightarrow>
            map_of (connectedUsers (fst (step (Disconnect sid True) s))) t =
            map_of (connectedUsers s) t)"
  using assms
  by (simp add: isUserOnline_def getUserSocketId_def sendToUser_def truthy_id_def
      on_disconnect_def socket_disconnect_def Let_def delete_conv')

lemma twice_A_full:
  "run hub0 twice_A =
     \<lparr>connectedUsers =
        [(''s1'', \<lparr>userId = ''A'', username = ''alice'', socketId = ''s1'', status = JStr ''online''\<rparr>),
         (''s2'', \<lparr>userId = ''A'', username = ''alice'', socketId = ''s2'', status = JStr ''online''\<rparr>)],
      userSockets = [(''A'', ''s2'')],
      sockets = [''s1'', ''s2''],
      rooms = [(''user:A'', ''s2''), (''s2'', ''s2''), (''user:A'', ''s1''), (''s1'', ''s1'')],
      socketAuth = [(''s1'', ''A'', ''alice''), (''s2'', ''A'', ''alice'')],
      listening = [''s2'', ''s1'']\<rparr>"
  by (simp add: twice_A_def hub0_def run_defs)

theorem disconnect_clears_index_witness:
  "isUserOnline (run hub0 twice_A) ''A'' \<and>
   \<not> isUserOnline (fst (step (Disconnect ''s1'' True) (run hub0 twice_A))) ''A'' \<and>
   map_of (connectedUsers (fst (step (Disconnect ''s1'' True) (run hub0 twice_A)))) ''s2'' =
     Some \<lparr>userId = ''A'', username = ''alice'', socketId = ''s2'', status = JStr ''online''\<rparr> \<and>
   \<not> isUserOnline (fst (step (Disconnect ''s2'' True) (run hub0 twice_A))) ''A'' \<and>
   map_of (connectedUsers (fst (step (Disconnect ''s2'' True) (run hub0 twice_A)))) ''s1'' =
     Some \<lparr>userId = ''A'', username = ''alice'', socketId = ''s1'', status = JStr ''online''\<rparr>"
proof -
  have a: "''s1'' \<in> set (sockets (run hub0 twice_A))" "''s1'' \<in> set (listening (run hub0 twice_A))"
    "map_of (socketAuth (run hub0 twice_A)) ''s1'' = Some (''A'', ''alice'')"
    "''s2'' \<in> set (sockets (run hub0 twice_A))" "''s2'' \<in> set (listening (run hub0 twice_A))"
    "map_of (socketAuth (run hub0 twice_A)) ''s2'' = Some (''A'', ''alice'')"
    by (simp_all add: twice_A_full)
  have b: "isUserOnline (run hub0 twice_A) ''A''"
    "map_of (connectedUsers (run hub0 twice_A)) ''s2'' =
       Some \<lparr>userId = ''A'', username = ''alice'', socketId = ''s2'', status = JStr ''online''\<rparr>"
    "map_of (connectedUsers (run hub0 twice_A)) ''s1'' =
       Some \<lparr>userId = ''A'', username = ''alice'', socketId = ''s1'', status = JStr ''online''\<rparr>"
    by (simp_all add: twice_A_full isUserOnline_def)
  from disconnect_clears_index[OF a(1,2,3)] disconnect_clears_index[OF a(4,5,6)] b
  show ?thesis by simp
qed

text \<open>
  The claim as written has the entry deleted unconditionally.  When the store update
  of the listener rejects, its \<^verbatim>\<open>catch\<close> is entered before the two \<^verbatim>\<open>delete\<close> calls,
  and the user stays online in the index.
\<close>

theorem disconnect_store_failure_counterexample:
  "isUserOnline (fst (step (Disconnect ''s1'' False) (run hub0 twice_A))) ''A'' \<and>
   getUserSocketId (fst (step (Disconnect ''s1'' False) (run hub0 twice_A))) ''A'' = Some ''s2'' \<and>
   sendToUser (fst (step (Disconnect ''s1'' False) (run hub0 twice_A))) ''A'' ''ping'' JNull =
     (True, [(''s2'', ''ping'', JNull)])"
  by (simp add: twice_A_full run_defs isUserOnline_def getUserSocketId_def sendToUser_def
      truthy_id_def io_to_emit_def room_members_def)

subsection \<open>Payloads are not validated\<close>

lemma absent_payload_dispatch:
  assumes "nullish (payload ev)"
  shows "dispatch ev sid uid uname s = (s, []) \<or>
         (\<exists>m. dispatch ev sid uid uname s = (s, socket_emit s sid ''error'' (error_event m)))"
  using assms by (cases ev) (auto simp: handler_defs)

text \<open>
  C5 (as amended).  An event whose payload is \<^verbatim>\<open>undefined\<close> or \<^verbatim>\<open>null\<close>: the hub
  state is unchanged, the socket stays connected, and at most one event is emitted, an
  \<^verbatim>\<open>error\<close> event to the sending socket.
\<close>

theorem absent_payload_only_error:
  assumes "nullish (payload ev)"
  shows "fst (step (Receive sid ev) s) = s \<and>
         (snd (step (Receive sid ev) s) = [] \<or>
          (\<exists>m. snd (step (Receive sid ev) s) = [(sid, ''error'', error_event m)]))"
proof (cases "sid \<in> set (sockets s) \<and> sid \<in> set (listening s)")
  case False
  then show ?thesis by auto
next
  case True
  show ?thesis
  proof (cases "map_of (socketAuth s) sid")
    case None
    with True show ?thesis by simp
  next
    case (Some a)
    obtain uid uname where a: "a = (uid, uname)" by (cases a)
    have st: "step (Receive sid ev) s = dispatch ev sid uid uname s"
      using True Some a by simp
    from absent_payload_dispatch[OF assms, of sid uid uname s] True
    show ?thesis unfolding st by (auto simp: socket_emit_def)
  qed
qed

theorem absent_payload_only_error_witness:
  "step (Receive ''s1'' (MessageSend JUndefined)) (run hub0 two_in_room1) =
     (run hub0 two_in_room1, [(''s1'', ''error'', JObj [(''message'', JStr ''Failed to send message'')])]) \<and>
   step (Receive ''s1'' (TypingStart JNull)) (run hub0 two_in_room1) = (run hub0 two_in_room1, [])"
proof -
  have "nullish (payload (MessageSend JUndefined))" "nullish (payload (TypingStart JNull))"
    by (simp_all add: nullish_def)
  from absent_payload_only_error[OF this(1), of "''s1''" "run hub0 two_in_room1"]
    absent_payload_only_error[OF this(2), of "''s1''" "run hub0 two_in_room1"]
  have "fst (step (Receive ''s1'' (MessageSend JUndefined)) (run hub0 two_in_room1)) = run hub0 two_in_room1"
    "fst (step (Receive ''s1'' (TypingStart JNull)) (run hub0 two_in_room1)) = run hub0 two_in_room1"
    by blast+
  moreover have
    "snd (step (Receive ''s1'' (MessageSend JUndefined)) (run hub0 two_in_room1)) =
       [(''s1'', ''error'', JObj [(''message'', JStr ''Failed to send message'')])]"
    "snd (step (Receive ''s1'' (TypingStart JNull)) (run hub0 two_in_room1)) = []"
    by (simp_all add: two_in_room1_state on_message_send_def on_typing_start_def on_typing_def
        or_thrown_def nullish_def socket_emit_def error_event_def)
  ultimately show ?thesis by (metis prod.collapse)
qed

lemma both_join_malformed_state:
  "run hub0 both_join_malformed =
     \<lparr>connectedUsers =
        [(''s1'', \<lparr>userId = ''A'', username = ''alice'', socketId = ''s1'', status = JStr ''online''\<rparr>),
         (''s2'', \<lparr>userId = ''B'', username = ''bob'', socketId = ''s2'', status = JStr ''online''\<rparr>)],
      userSockets = [(''A'', ''s1''), (''B'', ''s2'')],
      sockets = [''s1'', ''s2''],
      rooms = [(''chat:undefined'', ''s2''), (''user:B'', ''s2''),
               (''s2'', ''s2''), (''user:A'', ''s1''), (''s1'', ''s1'')],
      socketAuth = [(''s1'', ''A'', ''alice''), (''s2'', ''B'', ''bob'')],
      listening = [''s2'', ''s1'']\<rparr>"
  by (simp add: both_join_malformed_def hub0_def run_defs)

text \<open>
  The claim as written covers every malformed payload.  No handler checks a field or a
  type: a \<^verbatim>\<open>chat:join\<close> without \<^verbatim>\<open>chatId\<close> joins the room \<^verbatim>\<open>chat:undefined\<close>, and a
  \<^verbatim>\<open>typing:start\<close> without \<^verbatim>\<open>chatId\<close>, or a \<^verbatim>\<open>message:send\<close> whose payload is a
  string, is fanned out to that room.
\<close>

theorem malformed_payload_fans_out_counterexample:
  "snd (step (Receive ''s1'' (TypingStart (JObj []))) (run hub0 both_join_malformed)) =
     [(''s2'', ''typing:start'',
       JObj [(''userId'', JStr ''A''), (''username'', JStr ''alice''), (''chatId'', JUndefined)])] \<and>
   (''chat:undefined'', ''s2'') \<in> set (rooms (run hub0 both_join_malformed)) \<and>
   snd (step (Receive ''s1'' (MessageSend (JStr ''not an object''))) (run hub0 both_join_malformed)) =
     [(''s2'', ''message:new'', new_message ''A'' ''alice'' (JStr ''not an object''))]"
  by (simp add: both_join_malformed_state two_in_room1_state on_typing_start_def on_typing_def
      or_thrown_def nullish_def socket_to_emit_def io_to_emit_def room_members_def
      on_message_send_def Let_def)

subsection \<open>Rejections of the connection gate\<close>

lemma io_use_rejected:
  assumes "fst (io_use verify findById sid tok) = Rejected m"
  shows "m \<in> {''Authentication token required'', ''Authentication failed'', ''Invalid user''}"
    and "\<exists>ev kvs. snd (io_use verify findById sid tok) =
           [Security ev ((''socketId'', sid) # kvs)]"
  using assms
  by (auto simp: io_use_def split: option.splits if_splits jwt_result.splits find_result.splits)

lemma io_use_credential:
  assumes "t \<noteq> sid" "verify t \<noteq> VerifyThrows t" "verify t \<noteq> Decoded t"
    and "\<forall>uid. verify t = Decoded uid \<longrightarrow> findById uid \<noteq> FindThrows t"
    and "fst (io_use verify findById sid (Some t)) = Rejected m"
  shows "t \<notin> set (logged_values (snd (io_use verify findById sid (Some t))))"
  using assms
  by (auto simp: io_use_def logged_values_def
      split: option.splits if_splits jwt_result.splits find_result.splits)

text \<open>
  C4 (as amended).  A connection attempt is rejected with one of three named failures
  and no other, each logged as exactly one security event that carries the socket id: a
  missing credential with \<^verbatim>\<open>Authentication token required\<close>; a credential the verifier
  throws on (malformed, expired, invalid), and a failing account lookup, with
  \<^verbatim>\<open>Authentication failed\<close>, the log carrying the error message; an account that is not
  found and an account that is deactivated both with \<^verbatim>\<open>Invalid user\<close>, the log
  carrying the decoded user id; an active account is admitted.  The credential reaches
  the outcome and the log only through the verifier: two credentials the verifier treats
  alike give the same outcome and the same log, and the credential is not among the
  logged values of a rejection unless it is itself the socket id, the message the
  verifier or the store throws, or the decoded user id.
\<close>

theorem gate_rejections:
  "io_use verify findById sid None =
     (Rejected ''Authentication token required'',
      [Security ''Socket connection without token'' [(''socketId'', sid)]]) \<and>
   io_use verify findById sid (Some []) = io_use verify findById sid None \<and>
   (t \<noteq> [] \<and> (verify t = VerifyThrows msg \<or>
       (verify t = Decoded uid \<and> findById uid = FindThrows msg)) \<longrightarrow>
      io_use verify findById sid (Some t) =
        (Rejected ''Authentication failed'',
         [Security ''Socket authentication failed'' [(''socketId'', sid), (''error'', msg)]])) \<and>
   (t \<noteq> [] \<and> verify t = Decoded uid \<and>
      (findById uid = NotFound \<or> (\<exists>user. findById uid = Found user \<and> \<not> isActive user)) \<longrightarrow>
      io_use verify findById sid (Some t) =
        (Rejected ''Invalid user'',
         [Security ''Socket connection with invalid user''
            [(''socketId'', sid), (''userId'', uid)]])) \<and>
   (t \<noteq> [] \<and> t' \<noteq> [] \<and> verify t = verify t' \<longrightarrow>
      io_use verify findById sid (Some t) = io_use verify findById sid (Some t')) \<and>
   ''Authentication token required'' \<noteq> ''Authentication failed'' \<and>
   ''Authentication token required'' \<noteq> ''Invalid user'' \<and>
   ''Authentication failed'' \<noteq> ''Invalid user'' \<and>
   (\<forall>m. fst (io_use verify findById sid tok) = Rejected m \<longrightarrow>
      m \<in> {''Authentication token required'', ''Authentication failed'', ''Invalid user''} \<and>
      (\<exists>ev kvs. snd (io_use verify findById sid tok) =
         [Security ev ((''socketId'', sid) # kvs)])) \<and>
   (t \<noteq> [] \<and> verify t = Decoded uid \<and> findById uid = Found account \<and> isActive account \<longrightarrow>
      fst (io_use verify findById sid (Some t)) =
        Admitted (account_id account) (account_username account)) \<and>
   (t \<noteq> sid \<and> verify t \<noteq> VerifyThrows t \<and> verify t \<noteq> Decoded t \<and>
      (\<forall>u. verify t = Decoded u \<longrightarrow> findById u \<noteq> FindThrows t) \<and>
      (\<exists>m. fst (io_use verify findById sid (Some t)) = Rejected m) \<longrightarrow>
      t \<notin> set (logged_values (snd (io_use verify findById sid (Some t)))))"
proof -
  have a: "io_use verify findById sid None =
     (Rejected ''Authentication token required'',
      [Security ''Socket connection without token'' [(''socketId'', sid)]]) \<and>
   io_use verify findById sid (Some []) = io_use verify findById sid None \<and>
   (t \<noteq> [] \<and> (verify t = VerifyThrows msg \<or>
       (verify t = Decoded uid \<and> findById uid = FindThrows msg)) \<longrightarrow>
      io_use verify findById sid (Some t) =
        (Rejected ''Authentication failed'',
         [Security ''Socket authentication failed'' [(''socketId'', sid), (''error'', msg)]])) \<and>
   (t \<noteq> [] \<and> verify t = Decoded uid \<and>
      (findById uid = NotFound \<or> (\<exists>user. findById uid = Found user \<and> \<not> isActive user)) \<longrightarrow>
      io_use verify findById sid (Some t) =
        (Rejected ''Invalid user'',
         [Security ''Socket connection with invalid user''
            [(''socketId'', sid), (''userId'', uid)]])) \<and>
   (t \<noteq> [] \<and> t' \<noteq> [] \<and> verify t = verify t' \<longrightarrow>
      io_use verify findById sid (Some t) = io_use verify findById sid (Some t')) \<and>
   ''Authentication token required'' \<noteq> ''Authentication failed'' \<and>
   ''Authentication token required'' \<noteq> ''Invalid user'' \<and>
   ''Authentication failed'' \<noteq> ''Invalid user''"
    by (auto simp: io_use_def)
  have b: "\<forall>m. fst (io_use verify findById sid tok) = Rejected m \<longrightarrow>
      m \<in> {''Authentication token required'', ''Authentication failed'', ''Invalid user''} \<and>
      (\<exists>ev kvs. snd (io_use verify findById sid tok) =
         [Security ev ((''socketId'', sid) # kvs)])"
    using io_use_rejected[of verify findById sid tok] by blast
  have c: "t \<noteq> [] \<and> verify t = Decoded uid \<and> findById uid = Found account \<and> isActive account \<longrightarrow>
      fst (io_use verify findById sid (Some t)) =
        Admitted (account_id account) (account_username account)"
    by (simp add: io_use_def)
  have d: "t \<noteq> sid \<and> verify t \<noteq> VerifyThrows t \<and> verify t \<noteq> Decoded t \<and>
      (\<forall>u. verify t = Decoded u \<longrightarrow> findById u \<noteq> FindThrows t) \<and>
      (\<exists>m. fst (io_use verify findById sid (Some t)) = Rejected m) \<longrightarrow>
      t \<notin> set (logged_values (snd (io_use verify findById sid (Some t))))"
    using io_use_credential[of t sid verify findById] by blast
  from a b c d show ?thesis by - (elim conjE, intro conjI, assumption+)
qed

theorem gate_rejections_witness:
  "io_use rejects_jwt no_account ''s9'' (Some ''abc'') =
     (Rejected ''Authentication failed'',
      [Security ''Socket authentication failed'' [(''socketId'', ''s9''), (''error'', ''jwt malformed'')]]) \<and>
   io_use decodes_u1 no_account ''s9'' (Some ''abc'') =
     (Rejected ''Invalid user'',
      [Security ''Socket connection with invalid user'' [(''socketId'', ''s9''), (''userId'', ''u1'')]]) \<and>
   io_use decodes_u1 no_account ''s9'' (Some ''abc'') = io_use decodes_u1 no_account ''s9'' (Some ''xyz'') \<and>
   ''abc'' \<notin> set (logged_values (snd (io_use rejects_jwt no_account ''s9'' (Some ''abc'')))) \<and>
   ''abc'' \<notin> set (logged_values (snd (io_use decodes_u1 no_account ''s9'' (Some ''abc''))))"
  using gate_rejections[where verify = rejects_jwt and findById = no_account and sid = "''s9''"
      and t = "''abc''" and msg = "''jwt malformed''" and uid = "''u1''" and t' = "''xyz''"
      and tok = "Some ''abc''"]
    gate_rejections[where verify = decodes_u1 and findById = no_account and sid = "''s9''"
      and t = "''abc''" and msg = "''jwt malformed''" and uid = "''u1''" and t' = "''xyz''"
      and tok = "Some ''abc''"]
  by (auto simp add: rejects_jwt_def decodes_u1_def no_account_def)

text \<open>
  The claim as written gives each of the four causes a failure of its own.  The guard
  \<^verbatim>\<open>if (!user || !user.isActive)\<close> answers an account that is not found and an account
  that is deactivated alike: the same error, and the same log entry.
\<close>

theorem gate_same_failure_counterexample:
  "io_use decodes_u1 no_account ''s9'' (Some ''abc'') =
   io_use decodes_u1 deactivated_account ''s9'' (Some ''abc'') \<and>
   fst (io_use decodes_u1 no_account ''s9'' (Some ''abc'')) = Rejected ''Invalid user''"
  by (simp add: io_use_def decodes_u1_def no_account_def deactivated_account_def)

end
